theory Spec2Isabelle
  imports Complex_Main
begin

section \<open>Data model of the memory pipeline (schema.ts, memories.ts)\<close>

text \<open>
  Convex document ids are opaque strings. \<open>Date.now()\<close> is a number of milliseconds;
  it is read from the field \<open>clock\<close> of the world. Similarity scores and embedding
  components are numbers that the code only copies, never computes with.
\<close>

type_synonym docId = string
type_synonym userId = docId
type_synonym conversationId = docId
type_synonym memoryId = docId
type_synonym timestamp = int
type_synonym score = rat
type_synonym embedding = "rat list"

datatype memoryType = Episodic | Semantic | Procedural

datatype role = User | Assistant

datatype queueStatus = Pending | Processing | Completed | Failed

text \<open>Table \<open>memories\<close>.\<close>

record memory =
  m_id :: memoryId
  m_userId :: userId
  m_content :: string
  m_embedding :: embedding
  m_type :: memoryType
  m_keywords :: "string list option"
  m_contentHash :: "string option"
  m_validAt :: "timestamp option"
  m_invalidAt :: "timestamp option"
  m_sourceConversationId :: "conversationId option"
  m_createdAt :: timestamp

text \<open>Table \<open>coreMemoryBlocks\<close>.\<close>

record coreMemoryBlock =
  cb_id :: docId
  cb_userId :: userId
  cb_label :: string
  cb_content :: string
  cb_updatedAt :: timestamp

text \<open>Table \<open>memoryQueue\<close>.\<close>

record queueItem =
  q_id :: docId
  q_userId :: userId
  q_conversationId :: conversationId
  q_status :: queueStatus
  q_createdAt :: timestamp
  q_processedAt :: "timestamp option"

text \<open>Table \<open>messages\<close>.\<close>

record message =
  msg_id :: docId
  msg_conversationId :: conversationId
  msg_role :: role
  msg_content :: string
  msg_createdAt :: timestamp

text \<open>Jobs handed to \<open>ctx.scheduler.runAfter\<close>, with their delay in milliseconds.\<close>

datatype job = ProcessQueue | QueueForProcessing userId conversationId

text \<open>
  Every write to a table is also recorded, in order, in \<open>storeLog\<close>; every call of
  \<open>generateEmbedding\<close> in \<open>embedLog\<close>; \<open>decisionCalls\<close> counts the calls of the
  decision model. These three fields observe the run and are never read by the code.
\<close>

datatype storeEffect =
    InsertMemory memory
  | PatchInvalidAt memoryId timestamp
  | PatchCoreBlock docId string timestamp
  | InsertQueue queueItem
  | PatchQueueStatus docId queueStatus "timestamp option"

record world =
  memories :: "memory list"
  coreMemoryBlocks :: "coreMemoryBlock list"
  memoryQueue :: "queueItem list"
  messages :: "message list"
  scheduled :: "(nat \<times> job) list"
  clock :: timestamp
  idCounter :: nat
  storeLog :: "storeEffect list"
  embedLog :: "string list"
  decisionCalls :: nat

section \<open>Collaborators\<close>

text \<open>
  What the language model returns for the extraction prompt, before \<open>generateObject\<close>
  has checked it against \<open>extractionSchema\<close>: the two enumerated fields are still
  arbitrary strings.
\<close>

record rawMemory =
  rm_content :: string
  rm_type :: string
  rm_keywords :: "string list"

record rawCoreUpdate =
  rc_label :: string
  rc_content :: string

record rawExtraction =
  raw_memories :: "rawMemory list"
  raw_core_memory_updates :: "rawCoreUpdate list"

text \<open>The schema-checked extraction (\<open>z.infer<typeof extractionSchema>\<close>).\<close>

record extractedMemory =
  em_content :: string
  em_type :: memoryType
  em_keywords :: "string list"

record coreUpdate =
  cu_label :: string
  cu_content :: string

record extraction =
  ex_memories :: "extractedMemory list"
  ex_core_memory_updates :: "coreUpdate list"

datatype action = ADD | UPDATE | INVALIDATE | NOOP

text \<open>
  \<open>MemoryDecision\<close>. \<open>new_memory_index\<close> is a JavaScript number used as an array
  index; a negative index reads \<open>undefined\<close>, as does one past the end (and as would a
  fractional one, which behaves like an index out of range).
\<close>

record memoryDecision =
  new_memory_index :: int
  d_action :: action
  d_content :: "string option"
  target_memory_id :: "string option"
  reason :: string

record similarMemory =
  s_id :: memoryId
  s_content :: string
  s_type :: memoryType
  s_score :: score

record memoryWithContext =
  mc_memory :: extractedMemory
  mc_embedding :: embedding
  mc_similar :: "similarMemory list"

record existingMemory =
  e_id :: memoryId
  e_content :: string
  e_type :: memoryType
  e_similarity :: score

record promptMemory =
  p_index :: nat
  p_content :: string
  p_type :: memoryType

text \<open>
  The external services, as functions; \<open>None\<close> is a call that throws.
  \<^item> \<open>newId n\<close>: the id \<open>ctx.db.insert\<close> gives the n-th inserted document;
  \<^item> \<open>embedModel\<close>: the embedding model behind \<open>generateEmbedding\<close>;
  \<^item> \<open>vectorSearch\<close>: \<open>ctx.vectorSearch("memories", "by_embedding", ...)\<close> with the
    vector, the limit and the user of the filter, over the current table; it returns pairs of
    \<open>_id\<close> and \<open>_score\<close>, and nothing is assumed about which;
  \<^item> \<open>extractionModel\<close>: the model called with the core memory text and the conversation text
    (the fixed wording of the prompt around them is left out);
  \<^item> \<open>decisionModel\<close>: \<open>generateObject\<close> with \<open>decisionSchema\<close>, called with the two
    lists that the prompt prints as JSON; \<open>None\<close> also when the answer fails the schema;
  \<^item> \<open>sha256\<close>: the hexadecimal SHA-256 digest of a string;
  \<^item> \<open>trimJS\<close> and \<open>toLowerCaseJS\<close>: JavaScript's \<open>String.prototype.trim\<close> and
    \<open>String.prototype.toLowerCase\<close>, which follow the Unicode tables of white space and of
    case; nothing is assumed about them.
\<close>

record env =
  newId :: "nat \<Rightarrow> docId"
  embedModel :: "string \<Rightarrow> embedding option"
  vectorSearch :: "memory list \<Rightarrow> embedding \<Rightarrow> nat \<Rightarrow> userId \<Rightarrow> (memoryId \<times> score) list option"
  extractionModel :: "string \<Rightarrow> string \<Rightarrow> rawExtraction option"
  decisionModel :: "promptMemory list \<Rightarrow> existingMemory list \<Rightarrow> memoryDecision list option"
  sha256 :: "string \<Rightarrow> string"
  trimJS :: "string \<Rightarrow> string"
  toLowerCaseJS :: "string \<Rightarrow> string"

section \<open>JavaScript values\<close>

text \<open>
  \<open>!x\<close> on an optional number is true when the field is absent and when it is \<open>0\<close>;
  an optional string is truthy when it is present and not empty. The numbers tested are the
  timestamps of the store, which the code writes as \<open>Date.now()\<close>: integers.
\<close>

definition falsyNumber :: "timestamp option \<Rightarrow> bool" where
  "falsyNumber x = (case x of None \<Rightarrow> True | Some n \<Rightarrow> n = 0)"

definition truthyString :: "string option \<Rightarrow> bool" where
  "truthyString x = (case x of None \<Rightarrow> False | Some s \<Rightarrow> s \<noteq> [])"

text \<open>\<open>a || b\<close> for an optional string \<open>a\<close> and a string \<open>b\<close>.\<close>

definition orElse :: "string option \<Rightarrow> string \<Rightarrow> string" where
  "orElse a b = (case a of None \<Rightarrow> b | Some s \<Rightarrow> if s \<noteq> [] then s else b)"

text \<open>
  \<open>Array.prototype.join\<close>; and \<open>toUpperCase\<close> as it acts on ASCII strings. The pipeline
  applies it to the role of a message, one of the literals \<open>user\<close> and \<open>assistant\<close>.
\<close>

fun joinWith :: "string \<Rightarrow> string list \<Rightarrow> string" where
  "joinWith sep [] = []"
| "joinWith sep [x] = x"
| "joinWith sep (x # y # ys) = x @ sep @ joinWith sep (y # ys)"

definition upperChar :: "char \<Rightarrow> char" where
  "upperChar c =
     (if 97 \<le> (of_char c :: nat) \<and> (of_char c :: nat) \<le> 122
      then char_of ((of_char c :: nat) - 32) else c)"

definition toUpperCase :: "string \<Rightarrow> string" where
  "toUpperCase s = map upperChar s"

text \<open>
  Lower case and trimming as they act on ASCII strings. They stand for \<open>toLowerCaseJS\<close> and
  \<open>trimJS\<close> in the environments of the examples only, whose strings are ASCII.
\<close>

definition lowerChar :: "char \<Rightarrow> char" where
  "lowerChar c =
     (if 65 \<le> (of_char c :: nat) \<and> (of_char c :: nat) \<le> 90
      then char_of ((of_char c :: nat) + 32) else c)"

definition asciiToLowerCase :: "string \<Rightarrow> string" where
  "asciiToLowerCase s = map lowerChar s"

definition isSpace :: "char \<Rightarrow> bool" where
  "isSpace c = ((of_char c :: nat) \<in> {9, 10, 11, 12, 13, 32})"

definition asciiTrim :: "string \<Rightarrow> string" where
  "asciiTrim s = rev (dropWhile isSpace (rev (dropWhile isSpace s)))"

text \<open>
  \<open>obj[k] = v\<close> on a \<open>Record<string, V>\<close>: an existing key keeps its place and takes
  the new value, a new key goes last. (\<open>Object.values\<close> lists keys in this order, except
  that keys that read as array indices come first; ids are not such keys.)
\<close>

fun recordPut :: "string \<Rightarrow> 'v \<Rightarrow> (string \<times> 'v) list \<Rightarrow> (string \<times> 'v) list" where
  "recordPut k v [] = [(k, v)]"
| "recordPut k v ((k', v') # kvs) =
     (if k' = k then (k, v) # kvs else (k', v') # recordPut k v kvs)"

text \<open>\<open>xs[i]\<close> for a number \<open>i\<close>: \<open>None\<close> is \<open>undefined\<close>.\<close>

definition lookupEntry :: "'a list \<Rightarrow> int \<Rightarrow> 'a option" where
  "lookupEntry xs i = (if 0 \<le> i \<and> i < int (length xs) then Some (xs ! nat i) else None)"

section \<open>The processing queue\<close>

definition queueForProcessing :: "env \<Rightarrow> userId \<Rightarrow> conversationId \<Rightarrow> world \<Rightarrow> world" where
  "queueForProcessing env uid cid w =
     (case find (\<lambda>q. q_conversationId q = cid)
             (filter (\<lambda>q. q_status q = Pending) (memoryQueue w)) of
        Some existing \<Rightarrow> w
      | None \<Rightarrow>
          let item = \<lparr> q_id = newId env (idCounter w), q_userId = uid, q_conversationId = cid,
                       q_status = Pending, q_createdAt = clock w, q_processedAt = None \<rparr>
          in w \<lparr> memoryQueue := memoryQueue w @ [item],
                 idCounter := Suc (idCounter w),
                 storeLog := storeLog w @ [InsertQueue item],
                 scheduled := scheduled w @ [(5000, ProcessQueue)] \<rparr>)"

definition getPendingQueue :: "world \<Rightarrow> queueItem list" where
  "getPendingQueue w = take 10 (filter (\<lambda>q. q_status q = Pending) (memoryQueue w))"

definition getConversationMessages :: "conversationId \<Rightarrow> world \<Rightarrow> message list" where
  "getConversationMessages cid w = filter (\<lambda>m. msg_conversationId m = cid) (messages w)"

text \<open>\<open>ctx.db.patch\<close> throws when no document has the id.\<close>

fun patchQueueItem ::
  "docId \<Rightarrow> queueStatus \<Rightarrow> timestamp option \<Rightarrow> queueItem list \<Rightarrow> queueItem list option" where
  "patchQueueItem qid st pr [] = None"
| "patchQueueItem qid st pr (q # qs) =
     (if q_id q = qid
      then Some ((case pr of None \<Rightarrow> q \<lparr> q_status := st \<rparr>
                  | Some t \<Rightarrow> q \<lparr> q_status := st, q_processedAt := Some t \<rparr>) # qs)
      else map_option (\<lambda>qs'. q # qs') (patchQueueItem qid st pr qs))"

definition patchQueue :: "docId \<Rightarrow> queueStatus \<Rightarrow> timestamp option \<Rightarrow> world \<Rightarrow> world option" where
  "patchQueue qid st pr w =
     (case patchQueueItem qid st pr (memoryQueue w) of
        None \<Rightarrow> None
      | Some qs \<Rightarrow> Some (w \<lparr> memoryQueue := qs,
                              storeLog := storeLog w @ [PatchQueueStatus qid st pr] \<rparr>))"

definition markProcessing :: "docId \<Rightarrow> world \<Rightarrow> world option" where
  "markProcessing qid w = patchQueue qid Processing None w"

definition markCompleted :: "docId \<Rightarrow> world \<Rightarrow> world option" where
  "markCompleted qid w = patchQueue qid Completed (Some (clock w)) w"

definition markFailed :: "docId \<Rightarrow> world \<Rightarrow> world option" where
  "markFailed qid w = patchQueue qid Failed None w"

section \<open>Extraction: schema check, prompt texts, core memory updates\<close>

definition validLabels :: "string list" where
  "validLabels = [''user_profile'', ''partner_info'', ''relationship_context'', ''preferences'']"

definition parseType :: "string \<Rightarrow> memoryType option" where
  "parseType t =
     (if t = ''episodic'' then Some Episodic
      else if t = ''semantic'' then Some Semantic
      else if t = ''procedural'' then Some Procedural
      else None)"

definition parseMemory :: "rawMemory \<Rightarrow> extractedMemory option" where
  "parseMemory r =
     (case parseType (rm_type r) of
        None \<Rightarrow> None
      | Some t \<Rightarrow> Some \<lparr> em_content = rm_content r, em_type = t, em_keywords = rm_keywords r \<rparr>)"

text \<open>In the schema the label is a \<open>z.enum\<close> of the four labels.\<close>

definition parseCoreUpdate :: "rawCoreUpdate \<Rightarrow> coreUpdate option" where
  "parseCoreUpdate r =
     (if rc_label r \<in> set [''user_profile'', ''partner_info'', ''relationship_context'',
                             ''preferences'']
      then Some \<lparr> cu_label = rc_label r, cu_content = rc_content r \<rparr>
      else None)"

text \<open>An array is accepted when each of its elements is.\<close>

fun parseAll :: "('a \<Rightarrow> 'b option) \<Rightarrow> 'a list \<Rightarrow> 'b list option" where
  "parseAll f [] = Some []"
| "parseAll f (x # xs) =
     (case f x of
        None \<Rightarrow> None
      | Some y \<Rightarrow> (case parseAll f xs of None \<Rightarrow> None | Some ys \<Rightarrow> Some (y # ys)))"

definition extractionSchema :: "rawExtraction \<Rightarrow> extraction option" where
  "extractionSchema r =
     (case parseAll parseMemory (raw_memories r) of
        None \<Rightarrow> None
      | Some ms \<Rightarrow>
          (case parseAll parseCoreUpdate (raw_core_memory_updates r) of
             None \<Rightarrow> None
           | Some cs \<Rightarrow> Some \<lparr> ex_memories = ms, ex_core_memory_updates = cs \<rparr>))"

text \<open>
  \<open>generateObject\<close> with \<open>extractionSchema\<close> throws when the model cannot be reached
  and when its answer fails the schema.
\<close>

definition generateExtraction :: "env \<Rightarrow> string \<Rightarrow> string \<Rightarrow> extraction option" where
  "generateExtraction env coreMemoryText conversationText =
     (case extractionModel env coreMemoryText conversationText of
        None \<Rightarrow> None
      | Some raw \<Rightarrow> extractionSchema raw)"

definition getCoreMemoryBlocks :: "userId \<Rightarrow> world \<Rightarrow> coreMemoryBlock list" where
  "getCoreMemoryBlocks uid w = filter (\<lambda>b. cb_userId b = uid) (coreMemoryBlocks w)"

definition coreMemoryText :: "coreMemoryBlock list \<Rightarrow> string" where
  "coreMemoryText blocks =
     joinWith [CHR 0x0A]
       (map (\<lambda>b. ''['' @ cb_label b @ '']: '' @ orElse (Some (cb_content b)) ''(empty)'') blocks)"

definition conversationText :: "(string \<times> string) list \<Rightarrow> string" where
  "conversationText msgs =
     joinWith [CHR 0x0A, CHR 0x0A] (map (\<lambda>(r, c). toUpperCase r @ '': '' @ c) msgs)"

fun patchCoreBlock :: "docId \<Rightarrow> string \<Rightarrow> timestamp \<Rightarrow> coreMemoryBlock list \<Rightarrow> coreMemoryBlock list" where
  "patchCoreBlock bid c t [] = []"
| "patchCoreBlock bid c t (b # bs) =
     (if cb_id b = bid then b \<lparr> cb_content := c, cb_updatedAt := t \<rparr> # bs
      else b # patchCoreBlock bid c t bs)"

definition updateCoreMemoryInternal :: "userId \<Rightarrow> string \<Rightarrow> string \<Rightarrow> world \<Rightarrow> world" where
  "updateCoreMemoryInternal uid label c w =
     (case find (\<lambda>b. cb_label b = label) (filter (\<lambda>b. cb_userId b = uid) (coreMemoryBlocks w)) of
        None \<Rightarrow> w
      | Some existing \<Rightarrow>
          w \<lparr> coreMemoryBlocks := patchCoreBlock (cb_id existing) c (clock w) (coreMemoryBlocks w),
              storeLog := storeLog w @ [PatchCoreBlock (cb_id existing) c (clock w)] \<rparr>)"

fun applyCoreUpdates :: "userId \<Rightarrow> coreUpdate list \<Rightarrow> world \<Rightarrow> world" where
  "applyCoreUpdates uid [] w = w"
| "applyCoreUpdates uid (u # us) w =
     (if cu_label u \<in> set validLabels
      then applyCoreUpdates uid us (updateCoreMemoryInternal uid (cu_label u) (cu_content u) w)
      else applyCoreUpdates uid us w)"

section \<open>The memory store\<close>

definition getById :: "memoryId \<Rightarrow> world \<Rightarrow> memory option" where
  "getById mid w = find (\<lambda>m. m_id m = mid) (memories w)"

definition addInternal ::
  "env \<Rightarrow> userId \<Rightarrow> string \<Rightarrow> embedding \<Rightarrow> memoryType \<Rightarrow> string list option \<Rightarrow>
   conversationId option \<Rightarrow> world \<Rightarrow> memoryId \<times> world" where
  "addInternal env uid c emb ty kws conv w =
     (let doc = \<lparr> m_id = newId env (idCounter w), m_userId = uid, m_content = c,
                  m_embedding = emb, m_type = ty, m_keywords = kws, m_contentHash = None,
                  m_validAt = Some (clock w), m_invalidAt = None,
                  m_sourceConversationId = conv, m_createdAt = clock w \<rparr>
      in (m_id doc,
          w \<lparr> memories := memories w @ [doc],
              idCounter := Suc (idCounter w),
              storeLog := storeLog w @ [InsertMemory doc] \<rparr>))"

fun patchInvalidAt :: "memoryId \<Rightarrow> timestamp \<Rightarrow> memory list \<Rightarrow> memory list" where
  "patchInvalidAt mid t [] = []"
| "patchInvalidAt mid t (m # ms) =
     (if m_id m = mid then m \<lparr> m_invalidAt := Some t \<rparr> # ms
      else m # patchInvalidAt mid t ms)"

text \<open>\<open>ctx.db.patch\<close> throws when no memory has the id: \<open>None\<close>.\<close>

definition invalidateInternal :: "memoryId \<Rightarrow> world \<Rightarrow> world option" where
  "invalidateInternal mid w =
     (case getById mid w of
        None \<Rightarrow> None
      | Some doc \<Rightarrow>
          Some (w \<lparr> memories := patchInvalidAt mid (clock w) (memories w),
                    storeLog := storeLog w @ [PatchInvalidAt mid (clock w)] \<rparr>))"

text \<open>The public mutations \<open>add\<close> and \<open>invalidate\<close> have the bodies of the internal ones.\<close>

definition add ::
  "env \<Rightarrow> userId \<Rightarrow> string \<Rightarrow> embedding \<Rightarrow> memoryType \<Rightarrow> string list option \<Rightarrow>
   conversationId option \<Rightarrow> world \<Rightarrow> memoryId \<times> world" where
  "add env uid c emb ty kws conv w = addInternal env uid c emb ty kws conv w"

definition invalidate :: "memoryId \<Rightarrow> world \<Rightarrow> world option" where
  "invalidate mid w = invalidateInternal mid w"

text \<open>
  \<open>generateEmbedding\<close>: the call is recorded whether or not it throws.
\<close>

definition generateEmbedding :: "env \<Rightarrow> string \<Rightarrow> world \<Rightarrow> embedding option \<times> world" where
  "generateEmbedding env txt w = (embedModel env txt, w \<lparr> embedLog := embedLog w @ [txt] \<rparr>)"

section \<open>Similarity search with the active-only filter\<close>

text \<open>The loop of the public \<open>search\<close> over the results of the index.\<close>

fun validMemories :: "world \<Rightarrow> (memoryId \<times> score) list \<Rightarrow> (memory \<times> score) list" where
  "validMemories w [] = []"
| "validMemories w ((rid, sc) # rest) =
     (case getById rid w of
        None \<Rightarrow> validMemories w rest
      | Some mem \<Rightarrow>
          if falsyNumber (m_invalidAt mem) then (mem, sc) # validMemories w rest
          else validMemories w rest)"

definition search ::
  "env \<Rightarrow> userId \<Rightarrow> embedding \<Rightarrow> nat option \<Rightarrow> world \<Rightarrow> (memory \<times> score) list option" where
  "search env uid emb optLimit w =
     (let k = (case optLimit of None \<Rightarrow> 10 | Some l \<Rightarrow> l)
      in case vectorSearch env (memories w) emb k uid of
           None \<Rightarrow> None
         | Some results \<Rightarrow> Some (validMemories w results))"

text \<open>The loop of \<open>extractAndStoreMemories\<close> over the results of the index.\<close>

fun collectSimilar :: "world \<Rightarrow> (memoryId \<times> score) list \<Rightarrow> similarMemory list" where
  "collectSimilar w [] = []"
| "collectSimilar w ((rid, sc) # rest) =
     (case getById rid w of
        None \<Rightarrow> collectSimilar w rest
      | Some full \<Rightarrow>
          if falsyNumber (m_invalidAt full)
          then \<lparr> s_id = m_id full, s_content = m_content full, s_type = m_type full,
                 s_score = sc \<rparr> # collectSimilar w rest
          else collectSimilar w rest)"

section \<open>Reconciliation\<close>

text \<open>
  Step 5: for each extracted memory, the embedding and the similar active memories.
  A memory whose embedding or search throws is logged and left out.
\<close>

fun gatherContext ::
  "env \<Rightarrow> userId \<Rightarrow> extractedMemory list \<Rightarrow> world \<Rightarrow> memoryWithContext list \<times> world" where
  "gatherContext env uid [] w = ([], w)"
| "gatherContext env uid (memory # rest) w =
     (case generateEmbedding env (em_content memory) w of
        (None, w1) \<Rightarrow> gatherContext env uid rest w1
      | (Some emb, w1) \<Rightarrow>
          (case vectorSearch env (memories w1) emb 5 uid of
             None \<Rightarrow> gatherContext env uid rest w1
           | Some searchResults \<Rightarrow>
               (case gatherContext env uid rest w1 of
                  (others, w2) \<Rightarrow>
                    (\<lparr> mc_memory = memory, mc_embedding = emb,
                        mc_similar = collectSimilar w1 searchResults \<rparr> # others, w2))))"

definition newMemoriesForPrompt :: "memoryWithContext list \<Rightarrow> promptMemory list" where
  "newMemoriesForPrompt mwc =
     map (\<lambda>(i, m). \<lparr> p_index = i, p_content = em_content (mc_memory m),
                      p_type = em_type (mc_memory m) \<rparr>) (enumerate 0 mwc)"

text \<open>Collect and deduplicate all existing similar memories.\<close>

definition putSimilar ::
  "(string \<times> existingMemory) list \<Rightarrow> similarMemory \<Rightarrow> (string \<times> existingMemory) list" where
  "putSimilar acc s =
     recordPut (s_id s)
       \<lparr> e_id = s_id s, e_content = s_content s, e_type = s_type s, e_similarity = s_score s \<rparr>
       acc"

definition existingByID :: "memoryWithContext list \<Rightarrow> (string \<times> existingMemory) list" where
  "existingByID mwc = foldl (\<lambda>acc m. foldl putSimilar acc (mc_similar m)) [] mwc"

definition uniqueExisting :: "memoryWithContext list \<Rightarrow> existingMemory list" where
  "uniqueExisting mwc = map snd (existingByID mwc)"

definition addAll :: "string \<Rightarrow> memoryWithContext list \<Rightarrow> memoryDecision list" where
  "addAll why mwc =
     map (\<lambda>(i, m). \<lparr> new_memory_index = int i, d_action = ADD,
                      d_content = Some (em_content (mc_memory m)),
                      target_memory_id = None, reason = why \<rparr>) (enumerate 0 mwc)"

text \<open>Step 6: decide operations via the model, or skip it if there is nothing to compare.\<close>

definition decideOperations ::
  "env \<Rightarrow> memoryWithContext list \<Rightarrow> world \<Rightarrow> memoryDecision list \<times> world" where
  "decideOperations env mwc w =
     (if length (uniqueExisting mwc) = 0
      then (addAll ''No similar existing memories found'' mwc, w)
      else
        (let w1 = w \<lparr> decisionCalls := Suc (decisionCalls w) \<rparr>
         in case decisionModel env (newMemoriesForPrompt mwc) (uniqueExisting mwc) of
              Some ds \<Rightarrow> (ds, w1)
            | None \<Rightarrow> (addAll ''Decision LLM call failed, defaulting to ADD'' mwc, w1)))"

section \<open>Execution\<close>

text \<open>
  Step 7, one decision. The \<open>try\<close> around the \<open>switch\<close> catches what a mutation or the
  embedding throws: the writes made before stay, the rest of the case is not run.
\<close>

definition executeDecision ::
  "env \<Rightarrow> userId \<Rightarrow> conversationId \<Rightarrow> memoryWithContext list \<Rightarrow> world \<Rightarrow> memoryDecision \<Rightarrow> world" where
  "executeDecision env uid cid mwc w decision =
     (case lookupEntry mwc (new_memory_index decision) of
        None \<Rightarrow> w
      | Some entry \<Rightarrow>
          (case d_action decision of
             ADD \<Rightarrow>
               (let c = orElse (d_content decision) (em_content (mc_memory entry))
                in if c \<noteq> em_content (mc_memory entry)
                   then (case generateEmbedding env c w of
                           (None, w1) \<Rightarrow> w1
                         | (Some emb, w1) \<Rightarrow>
                             snd (addInternal env uid c emb (em_type (mc_memory entry))
                                    (Some (em_keywords (mc_memory entry))) (Some cid) w1))
                   else snd (addInternal env uid c (mc_embedding entry)
                               (em_type (mc_memory entry))
                               (Some (em_keywords (mc_memory entry))) (Some cid) w))
           | UPDATE \<Rightarrow>
               (if truthyString (target_memory_id decision) \<and> truthyString (d_content decision)
                then (case invalidateInternal (the (target_memory_id decision)) w of
                        None \<Rightarrow> w
                      | Some w1 \<Rightarrow>
                          (case generateEmbedding env (the (d_content decision)) w1 of
                             (None, w2) \<Rightarrow> w2
                           | (Some emb, w2) \<Rightarrow>
                               snd (addInternal env uid (the (d_content decision)) emb
                                      (em_type (mc_memory entry))
                                      (Some (em_keywords (mc_memory entry))) (Some cid) w2)))
                else w)
           | INVALIDATE \<Rightarrow>
               (if truthyString (target_memory_id decision)
                then (case invalidateInternal (the (target_memory_id decision)) w of
                        None \<Rightarrow> w
                      | Some w1 \<Rightarrow> w1)
                else w)
           | NOOP \<Rightarrow> w))"

definition executeDecisions ::
  "env \<Rightarrow> userId \<Rightarrow> conversationId \<Rightarrow> memoryWithContext list \<Rightarrow> memoryDecision list \<Rightarrow> world \<Rightarrow> world" where
  "executeDecisions env uid cid mwc decisions w = foldl (executeDecision env uid cid mwc) w decisions"

section \<open>The pipeline\<close>

definition extractAndStoreMemories ::
  "env \<Rightarrow> userId \<Rightarrow> conversationId \<Rightarrow> (string \<times> string) list \<Rightarrow> world \<Rightarrow> world" where
  "extractAndStoreMemories env uid cid msgs w =
     (case generateExtraction env (coreMemoryText (getCoreMemoryBlocks uid w))
             (conversationText msgs) of
        None \<Rightarrow> w
      | Some ex \<Rightarrow>
          (let hasMemories = (length (ex_memories ex) > 0);
               hasCoreUpdates = (length (ex_core_memory_updates ex) > 0)
           in if \<not> hasMemories \<and> \<not> hasCoreUpdates then w
              else
                (let w1 = applyCoreUpdates uid (ex_core_memory_updates ex) w
                 in if \<not> hasMemories then w1
                    else
                      (case gatherContext env uid (ex_memories ex) w1 of
                         (mwc, w2) \<Rightarrow>
                           if length mwc = 0 then w2
                           else
                             (case decideOperations env mwc w2 of
                                (decisions, w3) \<Rightarrow>
                                  executeDecisions env uid cid mwc decisions w3)))))"

text \<open>The two literals of the \<open>role\<close> field of a stored message.\<close>

definition roleString :: "role \<Rightarrow> string" where
  "roleString r = (case r of User \<Rightarrow> ''user'' | Assistant \<Rightarrow> ''assistant'')"

text \<open>The messages \<open>processQueue\<close> hands to \<open>extractAndStoreMemories\<close> for a conversation.\<close>

definition handOff :: "conversationId \<Rightarrow> world \<Rightarrow> (string \<times> string) list" where
  "handOff cid w = map (\<lambda>m. (roleString (msg_role m), msg_content m)) (getConversationMessages cid w)"

text \<open>
  One turn of the loop of \<open>processQueue\<close>. In this model nothing thrown escapes
  \<open>extractAndStoreMemories\<close>; a failing patch of the queue item is what reaches the
  \<open>catch\<close>. When \<open>markFailed\<close> throws too, the action ends there: \<open>None\<close>.
\<close>

definition processItem :: "env \<Rightarrow> queueItem \<Rightarrow> world \<Rightarrow> world option" where
  "processItem env item w =
     (case markProcessing (q_id item) w of
        None \<Rightarrow> markFailed (q_id item) w
      | Some w1 \<Rightarrow>
          (let msgs = handOff (q_conversationId item) w1;
               w2 = (if length msgs > 0
                     then extractAndStoreMemories env (q_userId item) (q_conversationId item) msgs w1
                     else w1)
           in case markCompleted (q_id item) w2 of
                None \<Rightarrow> markFailed (q_id item) w2
              | Some w3 \<Rightarrow> Some w3))"

fun processItems :: "env \<Rightarrow> queueItem list \<Rightarrow> world \<Rightarrow> world option" where
  "processItems env [] w = Some w"
| "processItems env (item # rest) w =
     (case processItem env item w of None \<Rightarrow> None | Some w1 \<Rightarrow> processItems env rest w1)"

definition processQueue :: "env \<Rightarrow> world \<Rightarrow> world option" where
  "processQueue env w = processItems env (getPendingQueue w) w"

section \<open>The direct insert of the agent's tool\<close>

text \<open>
  \<open>computeContentHash\<close>, as the test file re-declares it:
  the SHA-256 digest of \<open>content.trim().toLowerCase()\<close>.
\<close>

definition computeContentHash :: "env \<Rightarrow> string \<Rightarrow> string" where
  "computeContentHash env c = sha256 env (toLowerCaseJS env (trimJS env c))"

text \<open>\<open>{success: true, id}\<close> or \<open>{success: false, reason}\<close>.\<close>

datatype toolResult = Saved memoryId | NotSaved string

text \<open>
  Modelled from the spec: \<open>addFromTool\<close>, which the agent's \<open>saveMemory\<close> tool calls
  as \<open>api.memories.addFromTool\<close> and which \<open>memories.ts\<close> does not define. The spec's words:
  a direct, synchronous single-fact insert path that bypasses reconciliation, still computes
  an embedding, and is governed by the content-hash fast path: it reports a duplicate when a
  fact with the identical normalized hash already exists for the owner and is active (a fact
  is active iff \<open>invalidFrom\<close> is absent). The hash is looked up first, so a duplicate costs
  no embedding; \<open>None\<close> is the embedding call throwing.
\<close>

definition addFromTool ::
  "env \<Rightarrow> userId \<Rightarrow> string \<Rightarrow> memoryType \<Rightarrow> string list option \<Rightarrow> world \<Rightarrow>
   toolResult option \<times> world" where
  "addFromTool env uid c ty kws w =
     (let h = computeContentHash env c
      in case find (\<lambda>m. m_userId m = uid \<and> m_contentHash m = Some h \<and> m_invalidAt m = None)
                (memories w) of
           Some dup \<Rightarrow> (Some (NotSaved ''duplicate''), w)
         | None \<Rightarrow>
             (case generateEmbedding env c w of
                (None, w1) \<Rightarrow> (None, w1)
              | (Some emb, w1) \<Rightarrow>
                  (let doc = \<lparr> m_id = newId env (idCounter w1), m_userId = uid, m_content = c,
                               m_embedding = emb, m_type = ty, m_keywords = kws,
                               m_contentHash = Some h, m_validAt = Some (clock w1),
                               m_invalidAt = None, m_sourceConversationId = None,
                               m_createdAt = clock w1 \<rparr>
                   in (Some (Saved (m_id doc)),
                       w1 \<lparr> memories := memories w1 @ [doc],
                            idCounter := Suc (idCounter w1),
                            storeLog := storeLog w1 @ [InsertMemory doc] \<rparr>))))"

section \<open>Notions used to state the properties\<close>

text \<open>A candidate survives step 5 when neither its embedding nor its search throws.\<close>

definition survives :: "env \<Rightarrow> userId \<Rightarrow> memory list \<Rightarrow> extractedMemory \<Rightarrow> bool" where
  "survives env uid table m =
     (case embedModel env (em_content m) of
        None \<Rightarrow> False
      | Some emb \<Rightarrow> (case vectorSearch env table emb 5 uid of None \<Rightarrow> False | Some r \<Rightarrow> True))"

text \<open>All similar sets of a batch, in candidate processing order.\<close>

definition allSimilar :: "memoryWithContext list \<Rightarrow> similarMemory list" where
  "allSimilar mwc = concat (map mc_similar mwc)"

definition toExisting :: "similarMemory \<Rightarrow> existingMemory" where
  "toExisting s =
     \<lparr> e_id = s_id s, e_content = s_content s, e_type = s_type s, e_similarity = s_score s \<rparr>"

text \<open>The document that \<open>addInternal\<close> inserts into a given world.\<close>

definition newMemory ::
  "env \<Rightarrow> userId \<Rightarrow> conversationId \<Rightarrow> world \<Rightarrow> string \<Rightarrow> embedding \<Rightarrow> extractedMemory \<Rightarrow> memory" where
  "newMemory env uid cid w c emb cand =
     \<lparr> m_id = newId env (idCounter w), m_userId = uid, m_content = c, m_embedding = emb,
       m_type = em_type cand, m_keywords = Some (em_keywords cand), m_contentHash = None,
       m_validAt = Some (clock w), m_invalidAt = None, m_sourceConversationId = Some cid,
       m_createdAt = clock w \<rparr>"

text \<open>
  The spec's wording of the final content of an ADD decision: the decision's content if
  present, else the original candidate content.
\<close>

definition specFinalContent :: "memoryDecision \<Rightarrow> string \<Rightarrow> string" where
  "specFinalContent decision original =
     (case d_content decision of Some c \<Rightarrow> c | None \<Rightarrow> original)"

text \<open>
  The spec's wording of the conversation window, as the test file's length guard computes
  it: the last 20 messages when there are more than 20.
\<close>

definition specWindow :: "'a list \<Rightarrow> 'a list" where
  "specWindow msgs = (if length msgs > 20 then drop (length msgs - 20) msgs else msgs)"

text \<open>The number of pending queue items of a conversation.\<close>

definition pendingCount :: "conversationId \<Rightarrow> world \<Rightarrow> nat" where
  "pendingCount cid w =
     length (filter (\<lambda>q. q_status q = Pending \<and> q_conversationId q = cid) (memoryQueue w))"

text \<open>
  The code writes \<open>invalidAt\<close> in two places only, \<open>invalidate\<close> and
  \<open>invalidateInternal\<close>, and both write \<open>Date.now()\<close>, a positive number of
  milliseconds. In a store written by the code no \<open>invalidAt\<close> is therefore the number 0.
\<close>

definition invalidAtWritten :: "world \<Rightarrow> bool" where
  "invalidAtWritten w = (\<forall>m \<in> set (memories w). m_invalidAt m \<noteq> Some 0)"

text \<open>The active-only filter of both loops, on one result of the index.\<close>

definition activeHit :: "world \<Rightarrow> memoryId \<times> score \<Rightarrow> (memory \<times> score) option" where
  "activeHit w hit =
     (case getById (fst hit) w of
        None \<Rightarrow> None
      | Some m \<Rightarrow> if m_invalidAt m = None then Some (m, snd hit) else None)"

section \<open>Concrete worlds and collaborators for the examples\<close>

definition emptyWorld :: world where
  "emptyWorld =
     \<lparr> memories = [], coreMemoryBlocks = [], memoryQueue = [], messages = [], scheduled = [],
       clock = 1000, idCounter = 0, storeLog = [], embedLog = [], decisionCalls = 0 \<rparr>"

text \<open>
  An environment in which every embedding is \<open>[1]\<close>, the index finds nothing, and both
  language models are unreachable. The identity stands for the digest; it tells any two
  normalized contents apart.
\<close>

definition quietEnv :: env where
  "quietEnv =
     \<lparr> newId = (\<lambda>n. CHR ''d'' # replicate n (CHR ''x'')),
       embedModel = (\<lambda>txt. Some [1]),
       vectorSearch = (\<lambda>table emb k uid. Some []),
       extractionModel = (\<lambda>core conv. None),
       decisionModel = (\<lambda>new existing. None),
       sha256 = (\<lambda>txt. txt),
       trimJS = asciiTrim,
       toLowerCaseJS = asciiToLowerCase \<rparr>"

text \<open>The two candidates of the spec's deduplication example.\<close>

definition candA :: memoryWithContext where
  "candA =
     \<lparr> mc_memory = \<lparr> em_content = ''A'', em_type = Semantic, em_keywords = [] \<rparr>,
       mc_embedding = [],
       mc_similar =
         [\<lparr> s_id = ''X'', s_content = ''fact X'', s_type = Semantic, s_score = 9/10 \<rparr>,
          \<lparr> s_id = ''Y'', s_content = ''fact Y'', s_type = Semantic, s_score = 85/100 \<rparr>] \<rparr>"

definition candB :: memoryWithContext where
  "candB =
     \<lparr> mc_memory = \<lparr> em_content = ''B'', em_type = Semantic, em_keywords = [] \<rparr>,
       mc_embedding = [],
       mc_similar =
         [\<lparr> s_id = ''Y'', s_content = ''fact Y'', s_type = Semantic, s_score = 88/100 \<rparr>,
          \<lparr> s_id = ''Z'', s_content = ''fact Z'', s_type = Episodic, s_score = 8/10 \<rparr>] \<rparr>"

text \<open>
  What step 5 computes for one candidate over a given world: \<open>None\<close> when the embedding
  or the search throws.
\<close>

definition contextOf :: "env \<Rightarrow> userId \<Rightarrow> world \<Rightarrow> extractedMemory \<Rightarrow> memoryWithContext option" where
  "contextOf env uid w m =
     (case embedModel env (em_content m) of
        None \<Rightarrow> None
      | Some emb \<Rightarrow>
          (case vectorSearch env (memories w) emb 5 uid of
             None \<Rightarrow> None
           | Some r \<Rightarrow>
               Some \<lparr> mc_memory = m, mc_embedding = emb, mc_similar = collectSimilar w r \<rparr>))"

text \<open>
  Three stored facts of user \<open>u1\<close>: \<open>F\<close> is active, \<open>G\<close> was invalidated at time 700,
  \<open>Z\<close> carries the invalidation time 0.
\<close>

definition factF :: memory where
  "factF =
     \<lparr> m_id = ''F'', m_userId = ''u1'', m_content = ''Partner withdraws during arguments'',
       m_embedding = [1], m_type = Semantic, m_keywords = None, m_contentHash = None,
       m_validAt = Some 500, m_invalidAt = None, m_sourceConversationId = None,
       m_createdAt = 500 \<rparr>"

definition factG :: memory where
  "factG =
     \<lparr> m_id = ''G'', m_userId = ''u1'', m_content = ''Partner lives abroad'',
       m_embedding = [1], m_type = Semantic, m_keywords = None, m_contentHash = None,
       m_validAt = Some 500, m_invalidAt = Some 700, m_sourceConversationId = None,
       m_createdAt = 500 \<rparr>"

definition factZ :: memory where
  "factZ =
     \<lparr> m_id = ''Z'', m_userId = ''u1'', m_content = ''User works nights'',
       m_embedding = [1], m_type = Semantic, m_keywords = None, m_contentHash = None,
       m_validAt = Some 0, m_invalidAt = Some 0, m_sourceConversationId = None,
       m_createdAt = 0 \<rparr>"

definition storeWorld :: world where
  "storeWorld = emptyWorld \<lparr> memories := [factF, factG, factZ] \<rparr>"

text \<open>An index that returns all three facts, the invalidated one with the best score.\<close>

definition hitEnv :: env where
  "hitEnv =
     quietEnv \<lparr> vectorSearch :=
       (\<lambda>table emb k uid. Some [(''G'', 99/100), (''F'', 9/10), (''Z'', 8/10)]) \<rparr>"

definition candX :: extractedMemory where
  "candX = \<lparr> em_content = ''X'', em_type = Semantic, em_keywords = [''k''] \<rparr>"

text \<open>
  A candidate that adds detail to fact \<open>F\<close>, the UPDATE decision that merges it into
  \<open>F\<close>, and an environment whose embedding model cannot be reached.
\<close>

definition mergeEntry :: memoryWithContext where
  "mergeEntry =
     \<lparr> mc_memory = \<lparr> em_content = ''Partner needs space after arguments'',
                      em_type = Semantic, em_keywords = [''partner''] \<rparr>,
       mc_embedding = [1],
       mc_similar = [\<lparr> s_id = ''F'', s_content = ''Partner withdraws during arguments'',
                       s_type = Semantic, s_score = 9/10 \<rparr>] \<rparr>"

definition updateF :: memoryDecision where
  "updateF =
     \<lparr> new_memory_index = 0, d_action = UPDATE,
       d_content = Some ''Partner withdraws during arguments and needs space'',
       target_memory_id = Some ''F'', reason = ''adds detail'' \<rparr>"

definition noEmbedEnv :: env where
  "noEmbedEnv = quietEnv \<lparr> embedModel := (\<lambda>txt. None) \<rparr>"

text \<open>
  Inserting a candidate as it was extracted: its own content, with the embedding computed
  for it in step 5.
\<close>

definition insertCandidate :: "env \<Rightarrow> userId \<Rightarrow> conversationId \<Rightarrow> world \<Rightarrow> memoryWithContext \<Rightarrow> world" where
  "insertCandidate env uid cid w e =
     snd (addInternal env uid (em_content (mc_memory e)) (mc_embedding e)
            (em_type (mc_memory e)) (Some (em_keywords (mc_memory e))) (Some cid) w)"

text \<open>
  A candidate \<open>X\<close> whose embedding from step 5 is \<open>[7]\<close> (any fresh embedding in
  \<open>quietEnv\<close> is \<open>[1]\<close>), and three ADD decisions for it: without content, with a
  rewritten content, with the empty string as content.
\<close>

definition entryX :: memoryWithContext where
  "entryX = \<lparr> mc_memory = candX, mc_embedding = [7], mc_similar = [] \<rparr>"

definition addKeep :: memoryDecision where
  "addKeep =
     \<lparr> new_memory_index = 0, d_action = ADD, d_content = None, target_memory_id = None,
       reason = ''new'' \<rparr>"

definition addRewrite :: memoryDecision where
  "addRewrite =
     \<lparr> new_memory_index = 0, d_action = ADD, d_content = Some ''Y'', target_memory_id = None,
       reason = ''new, reworded'' \<rparr>"

definition addEmpty :: memoryDecision where
  "addEmpty =
     \<lparr> new_memory_index = 0, d_action = ADD, d_content = Some [], target_memory_id = None,
       reason = ''new'' \<rparr>"

definition entryW :: memoryWithContext where
  "entryW =
     \<lparr> mc_memory = \<lparr> em_content = ''W'', em_type = Semantic, em_keywords = [] \<rparr>,
       mc_embedding = [8], mc_similar = [] \<rparr>"

text \<open>
  A candidate whose embedding call throws in \<open>flakyEnv\<close>; an answer of the extraction model
  with two semantic memories and one core memory update; an environment that returns this
  answer while no embedding can be computed; a world that holds the profile block of \<open>u1\<close>.
\<close>

definition brokenCand :: extractedMemory where
  "brokenCand = \<lparr> em_content = ''broken'', em_type = Episodic, em_keywords = [] \<rparr>"

definition flakyEnv :: env where
  "flakyEnv = quietEnv \<lparr> embedModel := (\<lambda>txt. if txt = ''broken'' then None else Some [1]) \<rparr>"

definition rawTwo :: rawExtraction where
  "rawTwo =
     \<lparr> raw_memories =
         [\<lparr> rm_content = ''User is called Alex'', rm_type = ''semantic'', rm_keywords = [''name''] \<rparr>,
          \<lparr> rm_content = ''Partner is called Jordan'', rm_type = ''semantic'',
             rm_keywords = [''partner''] \<rparr>],
       raw_core_memory_updates =
         [\<lparr> rc_label = ''user_profile'', rc_content = ''Alex, anxious attachment'' \<rparr>] \<rparr>"

definition extractNoEmbedEnv :: env where
  "extractNoEmbedEnv =
     quietEnv \<lparr> embedModel := (\<lambda>txt. None), extractionModel := (\<lambda>core conv. Some rawTwo) \<rparr>"

definition profileBlock :: coreMemoryBlock where
  "profileBlock =
     \<lparr> cb_id = ''b1'', cb_userId = ''u1'', cb_label = ''user_profile'', cb_content = [],
       cb_updatedAt = 1 \<rparr>"

definition profileWorld :: world where
  "profileWorld = emptyWorld \<lparr> coreMemoryBlocks := [profileBlock] \<rparr>"

text \<open>
  An answer of the extraction model like \<open>rawTwo\<close> with one more core memory update, whose
  label is not one of the four; and an environment that returns it.
\<close>

definition rawHacked :: rawExtraction where
  "rawHacked =
     rawTwo \<lparr> raw_core_memory_updates :=
       [\<lparr> rc_label = ''user_profile'', rc_content = ''Alex, anxious attachment'' \<rparr>,
        \<lparr> rc_label = ''hacked_field'', rc_content = ''Should be filtered out'' \<rparr>] \<rparr>"

definition hackedEnv :: env where
  "hackedEnv = quietEnv \<lparr> extractionModel := (\<lambda>core conv. Some rawHacked) \<rparr>"

definition twoEnv :: env where
  "twoEnv = quietEnv \<lparr> extractionModel := (\<lambda>core conv. Some rawTwo) \<rparr>"

text \<open>A conversation \<open>c1\<close> of 21 messages, the first of which reads \<open>oldest\<close>.\<close>

definition longConversation :: world where
  "longConversation =
     emptyWorld \<lparr> messages :=
       map (\<lambda>i. \<lparr> msg_id = newId quietEnv i, msg_conversationId = ''c1'',
                    msg_role = (if even i then User else Assistant),
                    msg_content = (if i = 0 then ''oldest'' else ''later''),
                    msg_createdAt = int i \<rparr>) [0..<21] \<rparr>"

text \<open>The same UPDATE decision with an index that names no candidate.\<close>

definition updateGhost :: memoryDecision where
  "updateGhost = updateF \<lparr> new_memory_index := 99 \<rparr>"

text \<open>
  An extraction model that answers with one memory whose content is the conversation text it
  was given, in an environment without embeddings: the text of the prompt then shows in
  \<open>embedLog\<close>. And the long conversation with its pending queue item.
\<close>

definition echoEnv :: env where
  "echoEnv =
     noEmbedEnv \<lparr> extractionModel :=
       (\<lambda>core conv. Some \<lparr> raw_memories =
                               [\<lparr> rm_content = conv, rm_type = ''semantic'', rm_keywords = [] \<rparr>],
                             raw_core_memory_updates = [] \<rparr>) \<rparr>"

definition queuedLongConversation :: world where
  "queuedLongConversation =
     longConversation \<lparr> memoryQueue :=
       [\<lparr> q_id = ''q1'', q_userId = ''u1'', q_conversationId = ''c1'', q_status = Pending,
          q_createdAt = 900, q_processedAt = None \<rparr>] \<rparr>"

text \<open>The store with the facts \<open>F\<close> and \<open>G\<close> only.\<close>

definition cleanStore :: world where
  "cleanStore = emptyWorld \<lparr> memories := [factF, factG] \<rparr>"

text \<open>
  An answer of the extraction model with the candidates \<open>broken\<close> and \<open>X\<close>, in this
  order, and the environment that returns it while the embedding of \<open>broken\<close> throws.
\<close>

definition rawPartial :: rawExtraction where
  "rawPartial =
     \<lparr> raw_memories =
         [\<lparr> rm_content = ''broken'', rm_type = ''episodic'', rm_keywords = [] \<rparr>,
          \<lparr> rm_content = ''X'', rm_type = ''semantic'', rm_keywords = [''k''] \<rparr>],
       raw_core_memory_updates = [] \<rparr>"

definition partialEnv :: env where
  "partialEnv = flakyEnv \<lparr> extractionModel := (\<lambda>core conv. Some rawPartial) \<rparr>"

text \<open>An ADD decision without content for index 1.\<close>

definition addSecond :: memoryDecision where
  "addSecond = addKeep \<lparr> new_memory_index := 1 \<rparr>"

section \<open>Properties\<close>

subsection \<open>The deduplicated union of similar memories\<close>

lemma map_of_recordPut: "map_of (recordPut k v kvs) = (map_of kvs)(k \<mapsto> v)"
  by (induction kvs) (auto simp: fun_eq_iff)

lemma keys_recordPut: "fst ` set (recordPut k v kvs) = insert k (fst ` set kvs)"
proof -
  have "dom (map_of (recordPut k v kvs)) = insert k (dom (map_of kvs))"
    by (simp add: map_of_recordPut)
  then show ?thesis by (simp add: dom_map_of_conv_image_fst)
qed

lemma distinct_recordPut: "distinct (map fst kvs) \<Longrightarrow> distinct (map fst (recordPut k v kvs))"
  by (induction kvs) (auto simp: keys_recordPut)

lemma foldl_nested_concat:
  "foldl (\<lambda>acc m. foldl f acc (g m)) acc xs = foldl f acc (concat (map g xs))"
  by (induction xs arbitrary: acc) simp_all

lemma existingByID_allSimilar: "existingByID mwc = foldl putSimilar [] (allSimilar mwc)"
  by (simp add: existingByID_def allSimilar_def foldl_nested_concat)

lemma putSimilar_map_of:
  "map_of (putSimilar acc s) = (map_of acc)(s_id s \<mapsto> toExisting s)"
  by (simp add: putSimilar_def toExisting_def map_of_recordPut)

lemma foldl_putSimilar_keys:
  "fst ` set (foldl putSimilar acc xs) = fst ` set acc \<union> s_id ` set xs"
  by (induction xs arbitrary: acc) (auto simp: putSimilar_def keys_recordPut)

lemma foldl_putSimilar_distinct:
  "distinct (map fst acc) \<Longrightarrow> distinct (map fst (foldl putSimilar acc xs))"
  by (induction xs arbitrary: acc) (simp_all add: putSimilar_def distinct_recordPut)

lemma foldl_putSimilar_last:
  "k \<notin> s_id ` set ys \<Longrightarrow>
   map_of (foldl putSimilar acc (xs @ s # ys)) (s_id s) = Some (toExisting s) \<or> k \<noteq> s_id s"
  by (induction ys rule: rev_induct) (auto simp: putSimilar_map_of)

lemma foldl_putSimilar_last':
  "s_id s \<notin> s_id ` set ys \<Longrightarrow>
   map_of (foldl putSimilar acc (xs @ s # ys)) (s_id s) = Some (toExisting s)"
  using foldl_putSimilar_last[of "s_id s" ys acc xs s] by simp

lemma dedup_example_general:
  assumes A: "map (\<lambda>s. (s_id s, s_score s)) (mc_similar a) = [(''X'', 9/10), (''Y'', 85/100)]"
      and B: "map (\<lambda>s. (s_id s, s_score s)) (mc_similar b) = [(''Y'', 88/100), (''Z'', 8/10)]"
  shows "map (\<lambda>e. (e_id e, e_similarity e)) (uniqueExisting [a, b]) =
           [(''X'', 9/10), (''Y'', 88/100), (''Z'', 8/10)]"
proof -
  from A obtain x y where a: "mc_similar a = [x, y]" "s_id x = ''X''" "s_score x = 9/10"
      "s_id y = ''Y''" "s_score y = 85/100"
    by (auto simp: map_eq_Cons_conv)
  from B obtain y' z where b: "mc_similar b = [y', z]" "s_id y' = ''Y''" "s_score y' = 88/100"
      "s_id z = ''Z''" "s_score z = 8/10"
    by (auto simp: map_eq_Cons_conv)
  show ?thesis
    by (simp add: uniqueExisting_def existingByID_def putSimilar_def a b)
qed

text \<open>
  C4. \<open>existingByID\<close> is keyed by fact id and holds each id once; its ids are those of all
  similar sets; the entry recorded for an id is the one of its last occurrence in candidate
  processing order (last write wins); and for candidate A similar to X (0.9), Y (0.85) and then
  candidate B similar to Y (0.88), Z (0.8), the unique existing set is X, Y, Z with score 0.88
  for Y.
\<close>

theorem existingByID_dedup:
  "distinct (map fst (existingByID mwc))
   \<and> fst ` set (existingByID mwc) = s_id ` set (allSimilar mwc)
   \<and> (\<forall>xs s ys. allSimilar mwc = xs @ s # ys \<and> s_id s \<notin> s_id ` set ys
         \<longrightarrow> map_of (existingByID mwc) (s_id s) = Some (toExisting s))
   \<and> (\<forall>a b. map (\<lambda>s. (s_id s, s_score s)) (mc_similar a) = [(''X'', 9/10), (''Y'', 85/100)]
         \<and> map (\<lambda>s. (s_id s, s_score s)) (mc_similar b) = [(''Y'', 88/100), (''Z'', 8/10)]
         \<longrightarrow> map (\<lambda>e. (e_id e, e_similarity e)) (uniqueExisting [a, b]) =
               [(''X'', 9/10), (''Y'', 88/100), (''Z'', 8/10)])"
proof (intro conjI allI impI)
  show "distinct (map fst (existingByID mwc))"
    by (simp add: existingByID_allSimilar foldl_putSimilar_distinct)
  show "fst ` set (existingByID mwc) = s_id ` set (allSimilar mwc)"
    by (simp add: existingByID_allSimilar foldl_putSimilar_keys)
next
  fix xs s ys
  assume "allSimilar mwc = xs @ s # ys \<and> s_id s \<notin> s_id ` set ys"
  then have split: "allSimilar mwc = xs @ s # ys" and last: "s_id s \<notin> s_id ` set ys"
    by blast+
  have eq: "existingByID mwc = foldl putSimilar [] (xs @ s # ys)"
    unfolding existingByID_allSimilar split ..
  show "map_of (existingByID mwc) (s_id s) = Some (toExisting s)"
    unfolding eq by (rule foldl_putSimilar_last'[OF last])
next
  fix a b :: memoryWithContext
  assume "map (\<lambda>s. (s_id s, s_score s)) (mc_similar a) = [(''X'', 9/10), (''Y'', 85/100)]
         \<and> map (\<lambda>s. (s_id s, s_score s)) (mc_similar b) = [(''Y'', 88/100), (''Z'', 8/10)]"
  then show "map (\<lambda>e. (e_id e, e_similarity e)) (uniqueExisting [a, b]) =
               [(''X'', 9/10), (''Y'', 88/100), (''Z'', 8/10)]"
    by (simp add: dedup_example_general)
qed

theorem existingByID_dedup_witness:
  "allSimilar [candA, candB] = [hd (mc_similar candA), hd (tl (mc_similar candA))] @ hd (mc_similar candB) # tl (mc_similar candB)
   \<and> s_id (hd (mc_similar candB)) \<notin> s_id ` set (tl (mc_similar candB))
   \<and> map_of (existingByID [candA, candB]) ''Y'' =
       Some \<lparr> e_id = ''Y'', e_content = ''fact Y'', e_type = Semantic, e_similarity = 88/100 \<rparr>
   \<and> fst ` set (existingByID [candA, candB]) = {''X'', ''Y'', ''Z''}
   \<and> length (uniqueExisting [candA, candB]) = 3"
proof -
  have sp: "allSimilar [candA, candB] = [hd (mc_similar candA), hd (tl (mc_similar candA))] @ hd (mc_similar candB) # tl (mc_similar candB)"
    by (simp add: allSimilar_def candA_def candB_def)
  have nl: "s_id (hd (mc_similar candB)) \<notin> s_id ` set (tl (mc_similar candB))"
    by (simp add: candB_def)
  have A: "map (\<lambda>s. (s_id s, s_score s)) (mc_similar candA) = [(''X'', 9/10), (''Y'', 85/100)]"
    by (simp add: candA_def)
  have B: "map (\<lambda>s. (s_id s, s_score s)) (mc_similar candB) = [(''Y'', 88/100), (''Z'', 8/10)]"
    by (simp add: candB_def)
  note t = existingByID_dedup[of "[candA, candB]"]
  from t have "allSimilar [candA, candB] = [hd (mc_similar candA), hd (tl (mc_similar candA))] @ hd (mc_similar candB) # tl (mc_similar candB) \<and> s_id (hd (mc_similar candB)) \<notin> s_id ` set (tl (mc_similar candB)) \<longrightarrow>
      map_of (existingByID [candA, candB]) (s_id (hd (mc_similar candB))) = Some (toExisting (hd (mc_similar candB)))"
    by (elim conjE allE)
  with sp nl have "map_of (existingByID [candA, candB]) (s_id (hd (mc_similar candB))) = Some (toExisting (hd (mc_similar candB)))"
    by (rule_tac mp) simp_all
  then have y: "map_of (existingByID [candA, candB]) ''Y'' =
       Some \<lparr> e_id = ''Y'', e_content = ''fact Y'', e_type = Semantic, e_similarity = 88/100 \<rparr>"
    by (simp add: candB_def toExisting_def)
  from t have "fst ` set (existingByID [candA, candB]) = s_id ` set (allSimilar [candA, candB])" by blast
  then have k: "fst ` set (existingByID [candA, candB]) = {''X'', ''Y'', ''Z''}"
    by (auto simp add: allSimilar_def candA_def candB_def)
  from A B have "map (\<lambda>e. (e_id e, e_similarity e)) (uniqueExisting [candA, candB]) =
               [(''X'', 9/10), (''Y'', 88/100), (''Z'', 8/10)]"
    by (rule t[THEN conjunct2, THEN conjunct2, THEN conjunct2, rule_format, OF conjI])
  then have "length (map (\<lambda>e. (e_id e, e_similarity e)) (uniqueExisting [candA, candB])) = 3" by simp
  then have l: "length (uniqueExisting [candA, candB]) = 3" by simp
  from sp nl y k l show ?thesis by blast
qed

subsection \<open>The processing queue\<close>

lemma find_filter_None_iff:
  "find P (filter Q xs) = None \<longleftrightarrow> \<not> (\<exists>x\<in>set xs. Q x \<and> P x)"
  by (auto simp: find_None_iff)

lemma pendingCount_pos_iff:
  "0 < pendingCount cid w \<longleftrightarrow>
   (\<exists>q\<in>set (memoryQueue w). q_status q = Pending \<and> q_conversationId q = cid)"
  by (auto simp: pendingCount_def filter_empty_conv)

lemma queue_existing:
  assumes "0 < pendingCount cid w"
  shows "queueForProcessing env uid cid w = w"
proof -
  from assms have "find (\<lambda>q. q_conversationId q = cid)
      (filter (\<lambda>q. q_status q = Pending) (memoryQueue w)) \<noteq> None"
    by (simp add: find_filter_None_iff pendingCount_pos_iff)
  then show ?thesis by (auto simp: queueForProcessing_def)
qed

lemma queue_fresh:
  assumes "pendingCount cid w = 0"
  shows "queueForProcessing env uid cid w =
     w \<lparr> memoryQueue := memoryQueue w @
            [\<lparr> q_id = newId env (idCounter w), q_userId = uid, q_conversationId = cid,
               q_status = Pending, q_createdAt = clock w, q_processedAt = None \<rparr>],
         idCounter := Suc (idCounter w),
         storeLog := storeLog w @
            [InsertQueue \<lparr> q_id = newId env (idCounter w), q_userId = uid,
               q_conversationId = cid, q_status = Pending, q_createdAt = clock w,
               q_processedAt = None \<rparr>],
         scheduled := scheduled w @ [(5000, ProcessQueue)] \<rparr>"
proof -
  from assms have "\<not> 0 < pendingCount cid w" by simp
  then have "find (\<lambda>q. q_conversationId q = cid)
      (filter (\<lambda>q. q_status q = Pending) (memoryQueue w)) = None"
    by (simp add: find_filter_None_iff pendingCount_pos_iff)
  then show ?thesis by (simp add: queueForProcessing_def Let_def)
qed

lemma queue_count:
  "pendingCount cid (queueForProcessing env uid cid w) =
     (if pendingCount cid w = 0 then 1 else pendingCount cid w)"
proof (cases "pendingCount cid w = 0")
  case True
  then show ?thesis by (simp add: queue_fresh) (simp add: pendingCount_def)
next
  case False
  then show ?thesis by (simp add: queue_existing)
qed

text \<open>
  C6. While a pending item exists for the conversation, \<open>queueForProcessing\<close> changes
  nothing: no insert, no scheduled drain. When none exists it inserts one pending item and
  schedules one drain. Hence a second call right after a first changes nothing, and two calls
  from a state without a pending item leave exactly one.
\<close>

theorem enqueue_idempotent_while_pending:
  "(0 < pendingCount cid w \<longrightarrow> queueForProcessing env uid cid w = w)
   \<and> (pendingCount cid w = 0 \<longrightarrow>
        queueForProcessing env uid cid w =
          w \<lparr> memoryQueue := memoryQueue w @
                 [\<lparr> q_id = newId env (idCounter w), q_userId = uid, q_conversationId = cid,
                    q_status = Pending, q_createdAt = clock w, q_processedAt = None \<rparr>],
              idCounter := Suc (idCounter w),
              storeLog := storeLog w @
                 [InsertQueue \<lparr> q_id = newId env (idCounter w), q_userId = uid,
                    q_conversationId = cid, q_status = Pending, q_createdAt = clock w,
                    q_processedAt = None \<rparr>],
              scheduled := scheduled w @ [(5000, ProcessQueue)] \<rparr>)
   \<and> queueForProcessing env uid' cid (queueForProcessing env uid cid w) =
       queueForProcessing env uid cid w
   \<and> pendingCount cid (queueForProcessing env uid' cid (queueForProcessing env uid cid w)) =
       (if pendingCount cid w = 0 then 1 else pendingCount cid w)"
proof (intro conjI impI)
  have after: "0 < pendingCount cid (queueForProcessing env uid cid w)"
    by (simp add: queue_count)
  show twice: "queueForProcessing env uid' cid (queueForProcessing env uid cid w) =
       queueForProcessing env uid cid w"
    by (rule queue_existing[OF after])
  show "pendingCount cid (queueForProcessing env uid' cid (queueForProcessing env uid cid w)) =
       (if pendingCount cid w = 0 then 1 else pendingCount cid w)"
    unfolding twice by (rule queue_count)
qed (simp_all add: queue_existing queue_fresh)

theorem enqueue_idempotent_while_pending_witness:
  "pendingCount ''c1'' emptyWorld = 0
   \<and> 0 < pendingCount ''c1'' (queueForProcessing quietEnv ''u1'' ''c1'' emptyWorld)
   \<and> map q_conversationId
        (memoryQueue (queueForProcessing quietEnv ''u1'' ''c1''
           (queueForProcessing quietEnv ''u1'' ''c1'' emptyWorld))) = [''c1'']
   \<and> scheduled (queueForProcessing quietEnv ''u1'' ''c1''
        (queueForProcessing quietEnv ''u1'' ''c1'' emptyWorld)) = [(5000, ProcessQueue)]"
proof -
  have z: "pendingCount ''c1'' emptyWorld = 0"
    by (simp add: pendingCount_def emptyWorld_def)
  note t = enqueue_idempotent_while_pending[of "''c1''" emptyWorld quietEnv "''u1''" "''u1''"]
  from t z have one: "queueForProcessing quietEnv ''u1'' ''c1'' emptyWorld =
      emptyWorld \<lparr> memoryQueue := memoryQueue emptyWorld @
                 [\<lparr> q_id = newId quietEnv (idCounter emptyWorld), q_userId = ''u1'',
                    q_conversationId = ''c1'',
                    q_status = Pending, q_createdAt = clock emptyWorld, q_processedAt = None \<rparr>],
              idCounter := Suc (idCounter emptyWorld),
              storeLog := storeLog emptyWorld @
                 [InsertQueue \<lparr> q_id = newId quietEnv (idCounter emptyWorld), q_userId = ''u1'',
                    q_conversationId = ''c1'', q_status = Pending,
                    q_createdAt = clock emptyWorld,
                    q_processedAt = None \<rparr>],
              scheduled := scheduled emptyWorld @ [(5000, ProcessQueue)] \<rparr>"
    by blast
  from t have two: "queueForProcessing quietEnv ''u1'' ''c1''
        (queueForProcessing quietEnv ''u1'' ''c1'' emptyWorld) =
      queueForProcessing quietEnv ''u1'' ''c1'' emptyWorld"
    by blast
  have p: "0 < pendingCount ''c1'' (queueForProcessing quietEnv ''u1'' ''c1'' emptyWorld)"
    unfolding one by (simp add: pendingCount_def)
  show ?thesis
    unfolding two using z p unfolding one by (simp add: emptyWorld_def)
qed

subsection \<open>The active-only filter\<close>

lemma collectSimilar_cong:
  "memories w' = memories w \<Longrightarrow> collectSimilar w' r = collectSimilar w r"
  by (induction r) (auto simp: getById_def split: option.splits)

lemma contextOf_cong: "memories w' = memories w \<Longrightarrow> contextOf env uid w' m = contextOf env uid w m"
  by (simp add: contextOf_def collectSimilar_cong[of w' w] split: option.splits)

lemma gatherContext_eq:
  "gatherContext env uid ms w =
     (List.map_filter (contextOf env uid w) ms,
      w \<lparr> embedLog := embedLog w @ map em_content ms \<rparr>)"
proof (induction ms arbitrary: w)
  case Nil
  then show ?case by (simp add: map_filter_simps)
next
  case (Cons m ms)
  let ?w1 = "w \<lparr> embedLog := embedLog w @ [em_content m] \<rparr>"
  have c: "contextOf env uid ?w1 = contextOf env uid w"
    by (rule ext, rule contextOf_cong) simp
  have cs: "\<And>r. collectSimilar ?w1 r = collectSimilar w r"
    by (rule collectSimilar_cong) simp
  have ih: "gatherContext env uid ms ?w1 =
      (List.map_filter (contextOf env uid w) ms,
       w \<lparr> embedLog := embedLog w @ map em_content (m # ms) \<rparr>)"
    by (simp add: Cons.IH[of ?w1] c)
  have ge: "generateEmbedding env (em_content m) w = (embedModel env (em_content m), ?w1)"
    by (simp add: generateEmbedding_def)
  show ?case
  proof (cases "embedModel env (em_content m)")
    case None
    then have "contextOf env uid w m = None"
      by (simp add: contextOf_def)
    with None show ?thesis
      by (simp add: ge ih map_filter_simps)
  next
    case (Some emb)
    note emb = Some
    show ?thesis
    proof (cases "vectorSearch env (memories w) emb 5 uid")
      case None
      with emb have "contextOf env uid w m = None"
        by (simp add: contextOf_def)
      with emb None show ?thesis
        by (simp add: ge ih map_filter_simps)
    next
      case (Some r)
      with emb have "contextOf env uid w m =
          Some \<lparr> mc_memory = m, mc_embedding = emb, mc_similar = collectSimilar w r \<rparr>"
        by (simp add: contextOf_def)
      with emb Some show ?thesis
        by (simp add: ge ih map_filter_simps cs)
    qed
  qed
qed

lemma getById_Some: "getById mid w = Some m \<Longrightarrow> m \<in> set (memories w) \<and> m_id m = mid"
  by (auto simp: getById_def find_Some_iff)

lemma validMemories_sound:
  "(m, sc) \<in> set (validMemories w results) \<Longrightarrow>
     m \<in> set (memories w) \<and> falsyNumber (m_invalidAt m) \<and> (m_id m, sc) \<in> set results"
proof (induction w results rule: validMemories.induct)
  case (1 w)
  then show ?case by simp
next
  case (2 w rid sc' rest)
  show ?case
  proof (cases "getById rid w")
    case None
    with 2 show ?thesis by auto
  next
    case (Some mem)
    note g = getById_Some[OF Some]
    show ?thesis
    proof (cases "falsyNumber (m_invalidAt mem)")
      case True
      with 2 Some g show ?thesis by auto
    next
      case False
      with 2 Some show ?thesis by auto
    qed
  qed
qed

lemma collectSimilar_sound:
  "s \<in> set (collectSimilar w results) \<Longrightarrow>
     \<exists>m. getById (s_id s) w = Some m \<and> falsyNumber (m_invalidAt m)
         \<and> s_content s = m_content m \<and> (s_id s, s_score s) \<in> set results"
proof (induction w results rule: collectSimilar.induct)
  case (1 w)
  then show ?case by simp
next
  case (2 w rid sc' rest)
  show ?case
  proof (cases "getById rid w")
    case None
    with 2 show ?thesis by auto
  next
    case (Some full)
    note g = getById_Some[OF Some]
    show ?thesis
    proof (cases "falsyNumber (m_invalidAt full)")
      case True
      with 2 Some g show ?thesis by auto
    next
      case False
      with 2 Some show ?thesis by auto
    qed
  qed
qed

lemma falsyNumber_iff: "falsyNumber x \<longleftrightarrow> x = None \<or> x = Some 0"
  by (auto simp: falsyNumber_def split: option.splits)

lemma contextOf_similar:
  "contextOf env uid w c = Some e \<Longrightarrow> s \<in> set (mc_similar e) \<Longrightarrow>
     \<exists>m. getById (s_id s) w = Some m \<and> falsyNumber (m_invalidAt m)"
  by (auto simp: contextOf_def split: option.splits dest!: collectSimilar_sound)

subsection \<open>Executing one decision\<close>

lemma addInternal_world:
  "snd (addInternal env uid c emb (em_type cand) (Some (em_keywords cand)) (Some cid) w) =
     w \<lparr> memories := memories w @ [newMemory env uid cid w c emb cand],
         idCounter := Suc (idCounter w),
         storeLog := storeLog w @ [InsertMemory (newMemory env uid cid w c emb cand)] \<rparr>"
  by (simp add: addInternal_def newMemory_def Let_def)

lemma patchInvalidAt_content:
  "map m_content (patchInvalidAt mid t ms) = map m_content ms"
  by (induction ms) simp_all

lemma patchInvalidAt_find:
  "find (\<lambda>m. m_id m = mid) ms = Some old \<Longrightarrow>
   find (\<lambda>m. m_id m = mid) (patchInvalidAt mid t ms @ extra) = Some (old \<lparr> m_invalidAt := Some t \<rparr>)"
  by (induction ms) (auto split: if_splits)

lemma invalidateInternal_Some:
  "getById t w = Some old \<Longrightarrow>
   invalidateInternal t w =
     Some (w \<lparr> memories := patchInvalidAt t (clock w) (memories w),
               storeLog := storeLog w @ [PatchInvalidAt t (clock w)] \<rparr>)"
  by (simp add: invalidateInternal_def)

lemma newMemory_cong:
  "idCounter w' = idCounter w \<Longrightarrow> clock w' = clock w \<Longrightarrow>
   newMemory env uid cid w' c emb cand = newMemory env uid cid w c emb cand"
  by (simp add: newMemory_def)

text \<open>
  C1 (as amended). An UPDATE decision whose index names a surviving candidate and whose
  target id and content are both non-empty, with the target in the store and the embedding
  call succeeding, makes exactly two store writes, in this order: it sets \<open>invalidAt\<close> on
  the target, then inserts a new active memory with the decision's content and the embedding
  just computed for that content (one embedding call). No content field of an existing memory
  changes; the target keeps its content and is found invalidated.
\<close>

theorem update_supersedes:
  assumes entry: "lookupEntry mwc (new_memory_index d) = Some entry"
      and act: "d_action d = UPDATE"
      and tgt: "target_memory_id d = Some t" "t \<noteq> []"
      and cnt: "d_content d = Some c" "c \<noteq> []"
      and old: "getById t w = Some old"
      and emb: "embedModel env c = Some emb"
  shows "executeDecision env uid cid mwc w d =
           w \<lparr> memories := patchInvalidAt t (clock w) (memories w)
                              @ [newMemory env uid cid w c emb (mc_memory entry)],
               idCounter := Suc (idCounter w),
               storeLog := storeLog w @ [PatchInvalidAt t (clock w),
                             InsertMemory (newMemory env uid cid w c emb (mc_memory entry))],
               embedLog := embedLog w @ [c] \<rparr>
         \<and> m_content (newMemory env uid cid w c emb (mc_memory entry)) = c
         \<and> m_embedding (newMemory env uid cid w c emb (mc_memory entry)) = emb
         \<and> m_invalidAt (newMemory env uid cid w c emb (mc_memory entry)) = None
         \<and> map m_content (patchInvalidAt t (clock w) (memories w)) = map m_content (memories w)
         \<and> getById t (executeDecision env uid cid mwc w d) = Some (old \<lparr> m_invalidAt := Some (clock w) \<rparr>)"
proof -
  let ?new = "newMemory env uid cid w c emb (mc_memory entry)"
  let ?w1 = "w \<lparr> memories := patchInvalidAt t (clock w) (memories w),
               storeLog := storeLog w @ [PatchInvalidAt t (clock w)] \<rparr>"
  let ?w2 = "?w1 \<lparr> embedLog := embedLog ?w1 @ [c] \<rparr>"
  have nm: "newMemory env uid cid ?w2 c emb (mc_memory entry) = ?new"
    by (rule newMemory_cong) simp_all
  have ex: "executeDecision env uid cid mwc w d =
      snd (addInternal env uid c emb (em_type (mc_memory entry))
             (Some (em_keywords (mc_memory entry))) (Some cid) ?w2)"
    using entry act tgt cnt emb
    by (simp add: executeDecision_def truthyString_def invalidateInternal_Some[OF old]
          generateEmbedding_def)
  have eq: "executeDecision env uid cid mwc w d =
           w \<lparr> memories := patchInvalidAt t (clock w) (memories w) @ [?new],
               idCounter := Suc (idCounter w),
               storeLog := storeLog w @ [PatchInvalidAt t (clock w), InsertMemory ?new],
               embedLog := embedLog w @ [c] \<rparr>"
    unfolding ex addInternal_world nm by simp
  have g: "getById t (executeDecision env uid cid mwc w d) = Some (old \<lparr> m_invalidAt := Some (clock w) \<rparr>)"
    unfolding eq using old by (simp add: getById_def patchInvalidAt_find)
  show ?thesis
    using eq g by (simp add: patchInvalidAt_content) (simp add: newMemory_def)
qed

theorem update_supersedes_witness:
  "lookupEntry [mergeEntry] (new_memory_index updateF) = Some mergeEntry
   \<and> getById ''F'' storeWorld = Some factF
   \<and> embedModel quietEnv ''Partner withdraws during arguments and needs space'' = Some [1]
   \<and> map m_content (memories (executeDecision quietEnv ''u1'' ''c1'' [mergeEntry] storeWorld updateF)) =
        [''Partner withdraws during arguments'', ''Partner lives abroad'', ''User works nights'',
         ''Partner withdraws during arguments and needs space'']
   \<and> length (storeLog (executeDecision quietEnv ''u1'' ''c1'' [mergeEntry] storeWorld updateF)) = 2
   \<and> getById ''F'' (executeDecision quietEnv ''u1'' ''c1'' [mergeEntry] storeWorld updateF) =
        Some (factF \<lparr> m_invalidAt := Some 1000 \<rparr>)"
proof -
  have h1: "lookupEntry [mergeEntry] (new_memory_index updateF) = Some mergeEntry"
    by (simp add: lookupEntry_def updateF_def)
  have h2: "d_action updateF = UPDATE" by (simp add: updateF_def)
  have h3: "target_memory_id updateF = Some ''F''" "''F'' \<noteq> []" by (simp_all add: updateF_def)
  have h4: "d_content updateF = Some ''Partner withdraws during arguments and needs space''"
       "''Partner withdraws during arguments and needs space'' \<noteq> []"
    by (simp_all add: updateF_def)
  have h5: "getById ''F'' storeWorld = Some factF"
    by (simp add: getById_def storeWorld_def factF_def)
  have h6: "embedModel quietEnv ''Partner withdraws during arguments and needs space'' = Some [1]"
    by (simp add: quietEnv_def)
  note t = update_supersedes[OF h1 h2 h3 h4 h5 h6, of "''u1''" "''c1''"]
  have c: "clock storeWorld = 1000" by (simp add: storeWorld_def emptyWorld_def)
  have m: "map m_content (memories storeWorld) =
      [''Partner withdraws during arguments'', ''Partner lives abroad'', ''User works nights'']"
    by (simp add: storeWorld_def factF_def factG_def factZ_def)
  have l: "storeLog storeWorld = []" by (simp add: storeWorld_def emptyWorld_def)
  from t have e: "executeDecision quietEnv ''u1'' ''c1'' [mergeEntry] storeWorld updateF =
      storeWorld \<lparr> memories := patchInvalidAt ''F'' (clock storeWorld) (memories storeWorld)
                              @ [newMemory quietEnv ''u1'' ''c1'' storeWorld ''Partner withdraws during arguments and needs space'' [1] (mc_memory mergeEntry)],
               idCounter := Suc (idCounter storeWorld),
               storeLog := storeLog storeWorld @ [PatchInvalidAt ''F'' (clock storeWorld),
                             InsertMemory (newMemory quietEnv ''u1'' ''c1'' storeWorld ''Partner withdraws during arguments and needs space'' [1] (mc_memory mergeEntry))],
               embedLog := embedLog storeWorld @ [''Partner withdraws during arguments and needs space''] \<rparr>"
    by (rule conjunct1)
  from t have pc: "map m_content (patchInvalidAt ''F'' (clock storeWorld) (memories storeWorld)) = map m_content (memories storeWorld)"
    by blast
  from t have nc: "m_content (newMemory quietEnv ''u1'' ''c1'' storeWorld ''Partner withdraws during arguments and needs space'' [1] (mc_memory mergeEntry)) = ''Partner withdraws during arguments and needs space''"
    by blast
  from t have "getById ''F'' (executeDecision quietEnv ''u1'' ''c1'' [mergeEntry] storeWorld updateF) =
        Some (factF \<lparr> m_invalidAt := Some (clock storeWorld) \<rparr>)"
    by blast
  then have g: "getById ''F'' (executeDecision quietEnv ''u1'' ''c1'' [mergeEntry] storeWorld updateF) =
        Some (factF \<lparr> m_invalidAt := Some 1000 \<rparr>)"
    unfolding c .
  have 1: "map m_content (memories (executeDecision quietEnv ''u1'' ''c1'' [mergeEntry] storeWorld updateF)) =
        [''Partner withdraws during arguments'', ''Partner lives abroad'', ''User works nights'',
         ''Partner withdraws during arguments and needs space'']"
    unfolding e by (simp add: pc nc m)
  have 2: "length (storeLog (executeDecision quietEnv ''u1'' ''c1'' [mergeEntry] storeWorld updateF)) = 2"
    unfolding e by (simp add: l)
  from h1 h5 h6 1 2 g show ?thesis by blast
qed

text \<open>
  The other cases of an UPDATE decision: when the embedding call throws after the target was
  invalidated, the invalidation stays and nothing is inserted; when the target is not in the
  store, when a field is missing or empty, or when the index names no candidate, nothing is
  written.
\<close>

lemma update_embedding_fails:
  assumes entry: "lookupEntry mwc (new_memory_index d) = Some entry"
      and act: "d_action d = UPDATE"
      and tgt: "target_memory_id d = Some t" "t \<noteq> []"
      and cnt: "d_content d = Some c" "c \<noteq> []"
      and old: "getById t w = Some old"
      and emb: "embedModel env c = None"
  shows "executeDecision env uid cid mwc w d =
           w \<lparr> memories := patchInvalidAt t (clock w) (memories w),
               storeLog := storeLog w @ [PatchInvalidAt t (clock w)],
               embedLog := embedLog w @ [c] \<rparr>"
  using entry act tgt cnt emb
  by (simp add: executeDecision_def truthyString_def invalidateInternal_Some[OF old]
        generateEmbedding_def)

lemma update_target_missing:
  assumes "d_action d = UPDATE" and "getById (the (target_memory_id d)) w = None"
  shows "executeDecision env uid cid mwc w d = w"
  using assms
  by (simp add: executeDecision_def invalidateInternal_def split: option.splits)

lemma update_field_missing:
  assumes "d_action d = UPDATE"
      and "target_memory_id d = None \<or> target_memory_id d = Some [] \<or> d_content d = None \<or> d_content d = Some []"
  shows "executeDecision env uid cid mwc w d = w"
  using assms
  by (auto simp add: executeDecision_def truthyString_def split: option.splits)

lemma decision_index_out_of_range:
  assumes "new_memory_index d < 0 \<or> int (length mwc) \<le> new_memory_index d"
  shows "executeDecision env uid cid mwc w d = w"
  using assms by (auto simp add: executeDecision_def lookupEntry_def)

text \<open>
  The claim as stated fails in two ways. When the embedding call throws, the UPDATE decision,
  which carries a target id and a content, makes one store write, the invalidation, and
  inserts nothing. When its index names no candidate, it makes no store write at all.
\<close>

theorem update_without_two_store_effects:
  "lookupEntry [mergeEntry] (new_memory_index updateF) = Some mergeEntry
   \<and> d_action updateF = UPDATE
   \<and> target_memory_id updateF = Some ''F''
   \<and> d_content updateF = Some ''Partner withdraws during arguments and needs space''
   \<and> storeLog storeWorld = []
   \<and> storeLog (executeDecision noEmbedEnv ''u1'' ''c1'' [mergeEntry] storeWorld updateF) =
        [PatchInvalidAt ''F'' 1000]
   \<and> memories (executeDecision noEmbedEnv ''u1'' ''c1'' [mergeEntry] storeWorld updateF) =
        [factF \<lparr> m_invalidAt := Some 1000 \<rparr>, factG, factZ]
   \<and> d_action updateGhost = UPDATE
   \<and> target_memory_id updateGhost = Some ''F''
   \<and> d_content updateGhost = Some ''Partner withdraws during arguments and needs space''
   \<and> executeDecision quietEnv ''u1'' ''c1'' [mergeEntry] storeWorld updateGhost = storeWorld"
  by (simp add: executeDecision_def lookupEntry_def updateF_def updateGhost_def truthyString_def
        invalidateInternal_def getById_def storeWorld_def emptyWorld_def factF_def factG_def
        factZ_def generateEmbedding_def noEmbedEnv_def quietEnv_def)

lemma orElse_cases:
  "orElse a b = (case a of Some s \<Rightarrow> if s = [] then b else s | None \<Rightarrow> b)"
  by (simp add: orElse_def split: option.splits)

text \<open>
  C5 (as amended). For an ADD decision whose index names a surviving candidate, the final
  content is the decision's content if it is present and not empty, else the candidate's
  content. When the final content equals the candidate's, no embedding call is made and the
  inserted memory carries the embedding computed during reconciliation; otherwise exactly one
  embedding call is made, for the final content, and its result is stored (nothing is inserted
  when that call throws).
\<close>

theorem add_reuses_embedding_iff_unchanged:
  assumes entry: "lookupEntry mwc (new_memory_index d) = Some entry"
      and act: "d_action d = ADD"
      and fin: "final = (case d_content d of
                           Some s \<Rightarrow> if s = [] then em_content (mc_memory entry) else s
                         | None \<Rightarrow> em_content (mc_memory entry))"
      and res: "w' = executeDecision env uid cid mwc w d"
  shows "embedLog w' = embedLog w @ (if final = em_content (mc_memory entry) then [] else [final])
     \<and> (final = em_content (mc_memory entry) \<longrightarrow>
          memories w' = memories w @
            [newMemory env uid cid w final (mc_embedding entry) (mc_memory entry)])
     \<and> (final \<noteq> em_content (mc_memory entry) \<longrightarrow>
          (case embedModel env final of
             Some emb \<Rightarrow> memories w' = memories w @
                           [newMemory env uid cid w final emb (mc_memory entry)]
           | None \<Rightarrow> memories w' = memories w))"
proof -
  have f: "orElse (d_content d) (em_content (mc_memory entry)) = final"
    unfolding fin by (rule orElse_cases)
  show ?thesis
  proof (cases "final = em_content (mc_memory entry)")
    case True
    have "w' = snd (addInternal env uid final (mc_embedding entry) (em_type (mc_memory entry))
                 (Some (em_keywords (mc_memory entry))) (Some cid) w)"
      unfolding res using entry act f True by (simp add: executeDecision_def)
    then show ?thesis using True by (simp add: addInternal_world)
  next
    case False
    let ?w1 = "w \<lparr> embedLog := embedLog w @ [final] \<rparr>"
    show ?thesis
    proof (cases "embedModel env final")
      case None
      have "w' = ?w1"
        unfolding res using entry act f False None
        by (simp add: executeDecision_def generateEmbedding_def)
      then show ?thesis using False None by simp
    next
      case (Some emb)
      have nm: "newMemory env uid cid ?w1 final emb (mc_memory entry) =
                newMemory env uid cid w final emb (mc_memory entry)"
        by (rule newMemory_cong) simp_all
      have "w' = snd (addInternal env uid final emb (em_type (mc_memory entry))
                 (Some (em_keywords (mc_memory entry))) (Some cid) ?w1)"
        unfolding res using entry act f False Some
        by (simp add: executeDecision_def generateEmbedding_def)
      then show ?thesis using False Some by (simp add: addInternal_world nm)
    qed
  qed
qed

theorem add_reuses_embedding_iff_unchanged_witness:
  "lookupEntry [entryX] (new_memory_index addKeep) = Some entryX
   \<and> lookupEntry [entryX] (new_memory_index addRewrite) = Some entryX
   \<and> embedLog (executeDecision quietEnv ''u1'' ''c1'' [entryX] emptyWorld addKeep) = []
   \<and> map (\<lambda>m. (m_content m, m_embedding m))
        (memories (executeDecision quietEnv ''u1'' ''c1'' [entryX] emptyWorld addKeep)) = [(''X'', [7])]
   \<and> embedLog (executeDecision quietEnv ''u1'' ''c1'' [entryX] emptyWorld addRewrite) = [''Y'']
   \<and> map (\<lambda>m. (m_content m, m_embedding m))
        (memories (executeDecision quietEnv ''u1'' ''c1'' [entryX] emptyWorld addRewrite)) = [(''Y'', [1])]"
proof -
  have k1: "lookupEntry [entryX] (new_memory_index addKeep) = Some entryX"
    by (simp add: lookupEntry_def addKeep_def)
  have k2: "d_action addKeep = ADD" by (simp add: addKeep_def)
  have k3: "''X'' = (case d_content addKeep of
                           Some s \<Rightarrow> if s = [] then em_content (mc_memory entryX) else s
                         | None \<Rightarrow> em_content (mc_memory entryX))"
    by (simp add: addKeep_def entryX_def candX_def)
  have r1: "lookupEntry [entryX] (new_memory_index addRewrite) = Some entryX"
    by (simp add: lookupEntry_def addRewrite_def)
  have r2: "d_action addRewrite = ADD" by (simp add: addRewrite_def)
  have r3: "''Y'' = (case d_content addRewrite of
                           Some s \<Rightarrow> if s = [] then em_content (mc_memory entryX) else s
                         | None \<Rightarrow> em_content (mc_memory entryX))"
    by (simp add: addRewrite_def)
  note tk = add_reuses_embedding_iff_unchanged[OF k1 k2 k3 refl, of quietEnv "''u1''" "''c1''" emptyWorld]
  note tr = add_reuses_embedding_iff_unchanged[OF r1 r2 r3 refl, of quietEnv "''u1''" "''c1''" emptyWorld]
  have x: "em_content (mc_memory entryX) = ''X''" by (simp add: entryX_def candX_def)
  have e: "embedModel quietEnv ''Y'' = Some [1]" by (simp add: quietEnv_def)
  have w0: "embedLog emptyWorld = []" "memories emptyWorld = []" by (simp_all add: emptyWorld_def)
  from tk have "embedLog (executeDecision quietEnv ''u1'' ''c1'' [entryX] emptyWorld addKeep) = []"
    and "memories (executeDecision quietEnv ''u1'' ''c1'' [entryX] emptyWorld addKeep) =
           [newMemory quietEnv ''u1'' ''c1'' emptyWorld ''X'' (mc_embedding entryX) (mc_memory entryX)]"
    by (simp_all add: x w0)
  moreover from tr have "embedLog (executeDecision quietEnv ''u1'' ''c1'' [entryX] emptyWorld addRewrite) = [''Y'']"
    and "memories (executeDecision quietEnv ''u1'' ''c1'' [entryX] emptyWorld addRewrite) =
           [newMemory quietEnv ''u1'' ''c1'' emptyWorld ''Y'' [1] (mc_memory entryX)]"
    by (simp_all add: x w0 e)
  ultimately show ?thesis
    using k1 r1 by (simp add: newMemory_def entryX_def)
qed

text \<open>
  The claim as stated fails for a decision whose content is present and empty: by the spec's
  wording the final content would be the empty string, and the code inserts the candidate's
  content.
\<close>

theorem add_with_empty_content_keeps_original:
  "d_action addEmpty = ADD
   \<and> d_content addEmpty = Some []
   \<and> specFinalContent addEmpty (em_content (mc_memory entryX)) = []
   \<and> map m_content (memories (executeDecision quietEnv ''u1'' ''c1'' [entryX] emptyWorld addEmpty)) =
        [''X'']"
  by (simp add: specFinalContent_def addEmpty_def executeDecision_def lookupEntry_def orElse_def
        entryX_def candX_def addInternal_def Let_def emptyWorld_def)

subsection \<open>No similar memories: ADD everything\<close>

lemma insertCandidate_world:
  "insertCandidate env uid cid w e =
     w \<lparr> memories := memories w @
            [newMemory env uid cid w (em_content (mc_memory e)) (mc_embedding e) (mc_memory e)],
         idCounter := Suc (idCounter w),
         storeLog := storeLog w @
            [InsertMemory (newMemory env uid cid w (em_content (mc_memory e)) (mc_embedding e)
                             (mc_memory e))] \<rparr>"
  by (simp add: insertCandidate_def addInternal_world)

lemma execute_own_content:
  assumes "lookupEntry mwc i = Some e"
  shows "executeDecision env uid cid mwc w
           \<lparr> new_memory_index = i, d_action = ADD, d_content = Some (em_content (mc_memory e)),
             target_memory_id = None, reason = why \<rparr> = insertCandidate env uid cid w e"
  using assms by (simp add: executeDecision_def orElse_def insertCandidate_def)

lemma execute_addAll_general:
  assumes "\<forall>(i, e) \<in> set ies. lookupEntry mwc (int i) = Some e"
  shows "foldl (executeDecision env uid cid mwc) w
           (map (\<lambda>(i, m). \<lparr> new_memory_index = int i, d_action = ADD,
                      d_content = Some (em_content (mc_memory m)),
                      target_memory_id = None, reason = why \<rparr>) ies) =
         foldl (insertCandidate env uid cid) w (map snd ies)"
  using assms
proof (induction ies arbitrary: w)
  case Nil
  then show ?case by simp
next
  case (Cons p ies)
  obtain i e where p: "p = (i, e)" by (cases p)
  with Cons.prems have l: "lookupEntry mwc (int i) = Some e" by simp
  from Cons.prems have r: "\<forall>(i, e) \<in> set ies. lookupEntry mwc (int i) = Some e" by simp
  show ?case
    by (simp add: p execute_own_content[OF l] Cons.IH[OF r])
qed

lemma lookupEntry_enumerate:
  "\<forall>(i, e) \<in> set (enumerate 0 mwc). lookupEntry mwc (int i) = Some e"
  by (auto simp: in_set_enumerate_eq lookupEntry_def)

lemma execute_addAll:
  "executeDecisions env uid cid mwc (addAll why mwc) w = foldl (insertCandidate env uid cid) w mwc"
  unfolding executeDecisions_def addAll_def
  by (simp add: execute_addAll_general[OF lookupEntry_enumerate])

lemma insertCandidates_result:
  "\<exists>docs. memories (foldl (insertCandidate env uid cid) w es) = memories w @ docs
      \<and> map m_content docs = map (\<lambda>e. em_content (mc_memory e)) es
      \<and> map m_embedding docs = map mc_embedding es
      \<and> (\<forall>doc \<in> set docs. m_invalidAt doc = None \<and> m_userId doc = uid)
      \<and> storeLog (foldl (insertCandidate env uid cid) w es) = storeLog w @ map InsertMemory docs
      \<and> embedLog (foldl (insertCandidate env uid cid) w es) = embedLog w
      \<and> decisionCalls (foldl (insertCandidate env uid cid) w es) = decisionCalls w"
proof (induction es arbitrary: w)
  case Nil
  then show ?case by simp
next
  case (Cons e es)
  let ?d = "newMemory env uid cid w (em_content (mc_memory e)) (mc_embedding e) (mc_memory e)"
  let ?w1 = "insertCandidate env uid cid w e"
  from Cons.IH[of ?w1] obtain docs where
    d: "memories (foldl (insertCandidate env uid cid) ?w1 es) = memories ?w1 @ docs"
       "map m_content docs = map (\<lambda>e. em_content (mc_memory e)) es"
       "map m_embedding docs = map mc_embedding es"
       "\<forall>doc \<in> set docs. m_invalidAt doc = None \<and> m_userId doc = uid"
       "storeLog (foldl (insertCandidate env uid cid) ?w1 es) = storeLog ?w1 @ map InsertMemory docs"
       "embedLog (foldl (insertCandidate env uid cid) ?w1 es) = embedLog ?w1"
       "decisionCalls (foldl (insertCandidate env uid cid) ?w1 es) = decisionCalls ?w1"
    by blast
  have w1: "memories ?w1 = memories w @ [?d]" "storeLog ?w1 = storeLog w @ [InsertMemory ?d]"
       "embedLog ?w1 = embedLog w" "decisionCalls ?w1 = decisionCalls w"
    by (simp_all add: insertCandidate_world)
  have nd: "m_content ?d = em_content (mc_memory e)" "m_embedding ?d = mc_embedding e"
       "m_invalidAt ?d = None" "m_userId ?d = uid"
    by (simp_all add: newMemory_def)
  show ?case
    apply (rule exI[of _ "?d # docs"])
    using d w1 nd by simp
qed

lemma addAll_length: "length (addAll why mwc) = length mwc"
  by (simp add: addAll_def)

lemma addAll_nth:
  "i < length mwc \<Longrightarrow>
   addAll why mwc ! i =
     \<lparr> new_memory_index = int i, d_action = ADD,
       d_content = Some (em_content (mc_memory (mwc ! i))),
       target_memory_id = None, reason = why \<rparr>"
  by (simp add: addAll_def nth_enumerate_eq)

text \<open>
  C3 (as amended). When the deduplicated union of similar memories is empty, the decision
  model is not called and the decisions are one ADD per candidate, in order, each with the
  candidate's own content and the reason \<open>No similar existing memories found\<close>; executing
  them inserts exactly one new active memory per candidate, with the candidate's content and
  the embedding from reconciliation, and makes no embedding call.
\<close>

theorem add_all_shortcut:
  assumes "uniqueExisting mwc = []"
  shows "decideOperations env mwc w = (addAll ''No similar existing memories found'' mwc, w)
     \<and> length (fst (decideOperations env mwc w)) = length mwc
     \<and> (\<forall>i < length mwc.
          fst (decideOperations env mwc w) ! i =
            \<lparr> new_memory_index = int i, d_action = ADD,
              d_content = Some (em_content (mc_memory (mwc ! i))),
              target_memory_id = None, reason = ''No similar existing memories found'' \<rparr>)
     \<and> (\<exists>docs.
          memories (executeDecisions env uid cid mwc (fst (decideOperations env mwc w))
                      (snd (decideOperations env mwc w))) = memories w @ docs
          \<and> map m_content docs = map (\<lambda>e. em_content (mc_memory e)) mwc
          \<and> map m_embedding docs = map mc_embedding mwc
          \<and> (\<forall>doc \<in> set docs. m_invalidAt doc = None \<and> m_userId doc = uid)
          \<and> storeLog (executeDecisions env uid cid mwc (fst (decideOperations env mwc w))
                        (snd (decideOperations env mwc w))) = storeLog w @ map InsertMemory docs
          \<and> embedLog (executeDecisions env uid cid mwc (fst (decideOperations env mwc w))
                        (snd (decideOperations env mwc w))) = embedLog w
          \<and> decisionCalls (executeDecisions env uid cid mwc (fst (decideOperations env mwc w))
                        (snd (decideOperations env mwc w))) = decisionCalls w)"
proof -
  have d: "decideOperations env mwc w = (addAll ''No similar existing memories found'' mwc, w)"
    using assms by (simp add: decideOperations_def)
  show ?thesis
    unfolding d fst_conv snd_conv execute_addAll
    using insertCandidates_result[of env uid cid w mwc]
    by (simp add: addAll_length addAll_nth)
qed

theorem add_all_shortcut_witness:
  "uniqueExisting [entryX, entryW] = []
   \<and> map d_content (fst (decideOperations quietEnv [entryX, entryW] emptyWorld)) = [Some ''X'', Some ''W'']
   \<and> map m_content (memories (executeDecisions quietEnv ''u1'' ''c1'' [entryX, entryW]
        (fst (decideOperations quietEnv [entryX, entryW] emptyWorld))
        (snd (decideOperations quietEnv [entryX, entryW] emptyWorld)))) = [''X'', ''W'']
   \<and> decisionCalls (executeDecisions quietEnv ''u1'' ''c1'' [entryX, entryW]
        (fst (decideOperations quietEnv [entryX, entryW] emptyWorld))
        (snd (decideOperations quietEnv [entryX, entryW] emptyWorld))) = 0"
proof -
  have u: "uniqueExisting [entryX, entryW] = []"
    by (simp add: uniqueExisting_def existingByID_def entryX_def entryW_def)
  note t = add_all_shortcut[OF u, of quietEnv emptyWorld "''u1''" "''c1''"]
  from t have "decideOperations quietEnv [entryX, entryW] emptyWorld =
      (addAll ''No similar existing memories found'' [entryX, entryW], emptyWorld)"
    by (rule conjunct1)
  then have 1: "map d_content (fst (decideOperations quietEnv [entryX, entryW] emptyWorld)) = [Some ''X'', Some ''W'']"
    by (simp add: addAll_def entryX_def entryW_def candX_def)
  from t obtain docs where
    d: "memories (executeDecisions quietEnv ''u1'' ''c1'' [entryX, entryW]
        (fst (decideOperations quietEnv [entryX, entryW] emptyWorld))
        (snd (decideOperations quietEnv [entryX, entryW] emptyWorld))) = memories emptyWorld @ docs"
       "map m_content docs = map (\<lambda>e. em_content (mc_memory e)) [entryX, entryW]"
       "decisionCalls (executeDecisions quietEnv ''u1'' ''c1'' [entryX, entryW]
        (fst (decideOperations quietEnv [entryX, entryW] emptyWorld))
        (snd (decideOperations quietEnv [entryX, entryW] emptyWorld))) = decisionCalls emptyWorld"
    by blast
  have 2: "map m_content (memories (executeDecisions quietEnv ''u1'' ''c1'' [entryX, entryW]
        (fst (decideOperations quietEnv [entryX, entryW] emptyWorld))
        (snd (decideOperations quietEnv [entryX, entryW] emptyWorld)))) = [''X'', ''W'']"
    unfolding d(1) by (simp add: d(2) entryX_def entryW_def candX_def emptyWorld_def)
  have 3: "decisionCalls (executeDecisions quietEnv ''u1'' ''c1'' [entryX, entryW]
        (fst (decideOperations quietEnv [entryX, entryW] emptyWorld))
        (snd (decideOperations quietEnv [entryX, entryW] emptyWorld))) = 0"
    unfolding d(3) by (simp add: emptyWorld_def)
  from u 1 2 3 show ?thesis by blast
qed

text \<open>
  The claim as stated names the reason \<open>no similar existing memories found\<close>; the string
  the code writes begins with a capital letter.
\<close>

theorem add_all_reason_is_capitalised:
  "uniqueExisting [entryX] = []
   \<and> map reason (fst (decideOperations quietEnv [entryX] emptyWorld)) =
       [''No similar existing memories found'']
   \<and> ''No similar existing memories found'' \<noteq> ''no similar existing memories found''"
  by (simp add: decideOperations_def uniqueExisting_def existingByID_def entryX_def addAll_def)

subsection \<open>Candidates that fail in step 5\<close>

lemma updateCoreMemoryInternal_keeps:
  "memories (updateCoreMemoryInternal uid l c w) = memories w"
  "embedLog (updateCoreMemoryInternal uid l c w) = embedLog w"
  "decisionCalls (updateCoreMemoryInternal uid l c w) = decisionCalls w"
  by (simp_all add: updateCoreMemoryInternal_def split: option.splits)

lemma applyCoreUpdates_keeps:
  "memories (applyCoreUpdates uid us w) = memories w
   \<and> embedLog (applyCoreUpdates uid us w) = embedLog w
   \<and> decisionCalls (applyCoreUpdates uid us w) = decisionCalls w"
  by (induction us arbitrary: w) (simp_all add: updateCoreMemoryInternal_keeps)

lemma survives_iff: "survives env uid (memories w) c \<longleftrightarrow> contextOf env uid w c \<noteq> None"
  by (simp add: survives_def contextOf_def split: option.splits)

lemma contextOf_memory: "contextOf env uid w c = Some e \<Longrightarrow> mc_memory e = c"
  by (auto simp: contextOf_def split: option.splits)

lemma map_filter_memory:
  "map mc_memory (List.map_filter (contextOf env uid w) cands) =
     filter (survives env uid (memories w)) cands"
  by (induction cands) (auto simp: survives_iff contextOf_memory split: option.splits)

lemma map_filter_none:
  "\<forall>c \<in> set cands. f c = None \<Longrightarrow> List.map_filter f cands = []"
  by (induction cands) simp_all

lemma enumerate_map:
  "enumerate n (map f xs) = map (\<lambda>(i, x). (i, f x)) (enumerate n xs)"
  by (induction xs arbitrary: n) simp_all

lemma newMemoriesForPrompt_memories:
  "newMemoriesForPrompt mwc =
     map (\<lambda>(i, c). \<lparr> p_index = i, p_content = em_content c, p_type = em_type c \<rparr>)
       (enumerate 0 (map mc_memory mwc))"
  by (simp add: newMemoriesForPrompt_def enumerate_map comp_def case_prod_unfold)

lemma execute_add_without_content:
  assumes "lookupEntry mwc (new_memory_index d) = Some entry"
      and "d_action d = ADD" and "d_content d = None"
  shows "executeDecision env uid cid mwc w d = insertCandidate env uid cid w entry"
  using assms by (simp add: executeDecision_def orElse_def insertCandidate_def)

lemma contextOf_world:
  "memories w' = memories w \<Longrightarrow> contextOf env uid w' = contextOf env uid w"
  by (rule ext, rule contextOf_cong)

text \<open>
  C10. A candidate whose embedding or search throws is left out of the batch and the others
  go on: the gathered list is the list of surviving candidates, in order, and the pipeline
  decides and executes over exactly this list (when no similar memory is found, every survivor
  is inserted). The indices shown to the decision model number the survivors, and a decision
  index is looked up among the survivors: an index past the last survivor is skipped, an ADD
  for index i inserts the i-th survivor. When every candidate fails the list is empty, and the
  pipeline returns without calling the decision model and without writing to the memory
  table: the final world is the world after the core memory updates of step 4, with only the
  embedding calls recorded.
\<close>

theorem failed_candidates_are_dropped:
  "map mc_memory (fst (gatherContext env uid cands w)) =
      filter (survives env uid (memories w)) cands
   \<and> newMemoriesForPrompt (fst (gatherContext env uid cands w)) =
       map (\<lambda>(i, c). \<lparr> p_index = i, p_content = em_content c, p_type = em_type c \<rparr>)
         (enumerate 0 (filter (survives env uid (memories w)) cands))
   \<and> (\<forall>i e. lookupEntry (fst (gatherContext env uid cands w)) i = Some e \<longrightarrow>
         0 \<le> i \<and> nat i < length (filter (survives env uid (memories w)) cands)
         \<and> mc_memory e = filter (survives env uid (memories w)) cands ! nat i)
   \<and> (\<forall>d w'. (new_memory_index d < 0
                 \<or> int (length (filter (survives env uid (memories w)) cands)) \<le> new_memory_index d)
         \<longrightarrow> executeDecision env uid cid (fst (gatherContext env uid cands w)) w' d = w')
   \<and> (\<forall>d w'. 0 \<le> new_memory_index d
              \<and> new_memory_index d < int (length (filter (survives env uid (memories w)) cands))
              \<and> d_action d = ADD \<and> d_content d = None
         \<longrightarrow> memories (executeDecision env uid cid (fst (gatherContext env uid cands w)) w' d) =
               memories w' @
                 [newMemory env uid cid w'
                    (em_content (filter (survives env uid (memories w)) cands ! nat (new_memory_index d)))
                    (mc_embedding (fst (gatherContext env uid cands w) ! nat (new_memory_index d)))
                    (filter (survives env uid (memories w)) cands ! nat (new_memory_index d))])
   \<and> ((\<forall>c \<in> set cands. \<not> survives env uid (memories w) c) \<longrightarrow>
         gatherContext env uid cands w = ([], w \<lparr> embedLog := embedLog w @ map em_content cands \<rparr>))
   \<and> (\<forall>ex. generateExtraction env (coreMemoryText (getCoreMemoryBlocks uid w))
              (conversationText msgs) = Some ex
            \<and> ex_memories ex \<noteq> []
            \<and> (\<forall>c \<in> set (ex_memories ex). \<not> survives env uid (memories w) c) \<longrightarrow>
         extractAndStoreMemories env uid cid msgs w =
           (applyCoreUpdates uid (ex_core_memory_updates ex) w)
             \<lparr> embedLog := embedLog w @ map em_content (ex_memories ex) \<rparr>
         \<and> memories (extractAndStoreMemories env uid cid msgs w) = memories w
         \<and> decisionCalls (extractAndStoreMemories env uid cid msgs w) = decisionCalls w)
   \<and> (\<forall>ex. generateExtraction env (coreMemoryText (getCoreMemoryBlocks uid w))
              (conversationText msgs) = Some ex
            \<and> (\<exists>c \<in> set (ex_memories ex). survives env uid (memories w) c) \<longrightarrow>
         map mc_memory (List.map_filter (contextOf env uid w) (ex_memories ex)) =
           filter (survives env uid (memories w)) (ex_memories ex)
         \<and> extractAndStoreMemories env uid cid msgs w =
             executeDecisions env uid cid (List.map_filter (contextOf env uid w) (ex_memories ex))
               (fst (decideOperations env (List.map_filter (contextOf env uid w) (ex_memories ex))
                      ((applyCoreUpdates uid (ex_core_memory_updates ex) w)
                         \<lparr> embedLog := embedLog w @ map em_content (ex_memories ex) \<rparr>)))
               (snd (decideOperations env (List.map_filter (contextOf env uid w) (ex_memories ex))
                      ((applyCoreUpdates uid (ex_core_memory_updates ex) w)
                         \<lparr> embedLog := embedLog w @ map em_content (ex_memories ex) \<rparr>)))
         \<and> (uniqueExisting (List.map_filter (contextOf env uid w) (ex_memories ex)) = [] \<longrightarrow>
              (\<exists>docs. memories (extractAndStoreMemories env uid cid msgs w) = memories w @ docs
                 \<and> map m_content docs =
                     map em_content (filter (survives env uid (memories w)) (ex_memories ex))
                 \<and> (\<forall>doc \<in> set docs. m_invalidAt doc = None))))"
proof -
  let ?sv = "filter (survives env uid (memories w)) cands"
  let ?g = "fst (gatherContext env uid cands w)"
  have A: "map mc_memory ?g = ?sv"
    by (simp add: gatherContext_eq map_filter_memory)
  from A have l: "length ?g = length ?sv" by (metis length_map)
  have P: "newMemoriesForPrompt ?g =
       map (\<lambda>(i, c). \<lparr> p_index = i, p_content = em_content c, p_type = em_type c \<rparr>)
         (enumerate 0 ?sv)"
    unfolding newMemoriesForPrompt_memories A ..
  have B: "0 \<le> i \<and> nat i < length ?sv \<and> mc_memory e = ?sv ! nat i"
    if "lookupEntry ?g i = Some e" for i e
  proof -
    from that have i: "0 \<le> i" "nat i < length ?g" and e: "e = ?g ! nat i"
      by (auto simp: lookupEntry_def split: if_splits)
    have "mc_memory e = map mc_memory ?g ! nat i"
      using i e by simp
    with A i l show ?thesis by simp
  qed
  have S: "executeDecision env uid cid ?g w' d = w'"
    if "new_memory_index d < 0 \<or> int (length ?sv) \<le> new_memory_index d" for d w'
    using that l by (intro decision_index_out_of_range) simp
  have X: "memories (executeDecision env uid cid ?g w' d) =
               memories w' @
                 [newMemory env uid cid w' (em_content (?sv ! nat (new_memory_index d)))
                    (mc_embedding (?g ! nat (new_memory_index d))) (?sv ! nat (new_memory_index d))]"
    if "0 \<le> new_memory_index d \<and> new_memory_index d < int (length ?sv)
        \<and> d_action d = ADD \<and> d_content d = None" for d w'
  proof -
    from that l have lk: "lookupEntry ?g (new_memory_index d) = Some (?g ! nat (new_memory_index d))"
      by (simp add: lookupEntry_def)
    from B[OF lk] have m: "mc_memory (?g ! nat (new_memory_index d)) = ?sv ! nat (new_memory_index d)"
      by simp
    from that have "executeDecision env uid cid ?g w' d =
        insertCandidate env uid cid w' (?g ! nat (new_memory_index d))"
      by (intro execute_add_without_content[OF lk]) simp_all
    then show ?thesis by (simp add: insertCandidate_world m)
  qed
  have C: "gatherContext env uid cands w = ([], w \<lparr> embedLog := embedLog w @ map em_content cands \<rparr>)"
    if "\<forall>c \<in> set cands. \<not> survives env uid (memories w) c"
    using that by (simp add: gatherContext_eq survives_iff map_filter_none)
  have D: "extractAndStoreMemories env uid cid msgs w =
           (applyCoreUpdates uid (ex_core_memory_updates ex) w)
             \<lparr> embedLog := embedLog w @ map em_content (ex_memories ex) \<rparr>
         \<and> memories (extractAndStoreMemories env uid cid msgs w) = memories w
         \<and> decisionCalls (extractAndStoreMemories env uid cid msgs w) = decisionCalls w"
    if g: "generateExtraction env (coreMemoryText (getCoreMemoryBlocks uid w))
              (conversationText msgs) = Some ex"
      and ne: "ex_memories ex \<noteq> []"
      and f: "\<forall>c \<in> set (ex_memories ex). \<not> survives env uid (memories w) c" for ex
  proof -
    let ?w1 = "applyCoreUpdates uid (ex_core_memory_updates ex) w"
    note k = applyCoreUpdates_keeps[of uid "ex_core_memory_updates ex" w]
    have "contextOf env uid ?w1 c = None" if "c \<in> set (ex_memories ex)" for c
    proof -
      from that f k have "\<not> survives env uid (memories ?w1) c" by simp
      then show ?thesis by (simp add: survives_iff)
    qed
    then have gc: "gatherContext env uid (ex_memories ex) ?w1 =
        ([], ?w1 \<lparr> embedLog := embedLog ?w1 @ map em_content (ex_memories ex) \<rparr>)"
      by (simp add: gatherContext_eq map_filter_none)
    have "extractAndStoreMemories env uid cid msgs w =
        ?w1 \<lparr> embedLog := embedLog ?w1 @ map em_content (ex_memories ex) \<rparr>"
      using g ne by (simp add: extractAndStoreMemories_def Let_def gc)
    with k show ?thesis by simp
  qed
  have E: "map mc_memory (List.map_filter (contextOf env uid w) (ex_memories ex)) =
           filter (survives env uid (memories w)) (ex_memories ex)
         \<and> extractAndStoreMemories env uid cid msgs w =
             executeDecisions env uid cid (List.map_filter (contextOf env uid w) (ex_memories ex))
               (fst (decideOperations env (List.map_filter (contextOf env uid w) (ex_memories ex))
                      ((applyCoreUpdates uid (ex_core_memory_updates ex) w)
                         \<lparr> embedLog := embedLog w @ map em_content (ex_memories ex) \<rparr>)))
               (snd (decideOperations env (List.map_filter (contextOf env uid w) (ex_memories ex))
                      ((applyCoreUpdates uid (ex_core_memory_updates ex) w)
                         \<lparr> embedLog := embedLog w @ map em_content (ex_memories ex) \<rparr>)))
         \<and> (uniqueExisting (List.map_filter (contextOf env uid w) (ex_memories ex)) = [] \<longrightarrow>
              (\<exists>docs. memories (extractAndStoreMemories env uid cid msgs w) = memories w @ docs
                 \<and> map m_content docs =
                     map em_content (filter (survives env uid (memories w)) (ex_memories ex))
                 \<and> (\<forall>doc \<in> set docs. m_invalidAt doc = None)))"
    if g: "generateExtraction env (coreMemoryText (getCoreMemoryBlocks uid w))
              (conversationText msgs) = Some ex"
      and sv: "\<exists>c \<in> set (ex_memories ex). survives env uid (memories w) c" for ex
  proof -
    let ?w1 = "applyCoreUpdates uid (ex_core_memory_updates ex) w"
    let ?G = "List.map_filter (contextOf env uid w) (ex_memories ex)"
    let ?w2 = "?w1 \<lparr> embedLog := embedLog w @ map em_content (ex_memories ex) \<rparr>"
    note k = applyCoreUpdates_keeps[of uid "ex_core_memory_updates ex" w]
    have m: "map mc_memory ?G = filter (survives env uid (memories w)) (ex_memories ex)"
      by (rule map_filter_memory)
    from sv have "filter (survives env uid (memories w)) (ex_memories ex) \<noteq> []"
      by (auto simp: filter_empty_conv)
    with m have Gne: "?G \<noteq> []" by auto
    from sv have ne: "ex_memories ex \<noteq> []" by auto
    have c1: "contextOf env uid ?w1 = contextOf env uid w"
      using k by (intro contextOf_world) simp
    have gc: "gatherContext env uid (ex_memories ex) ?w1 = (?G, ?w2)"
      using k by (simp add: gatherContext_eq c1)
    have run: "extractAndStoreMemories env uid cid msgs w =
        executeDecisions env uid cid ?G (fst (decideOperations env ?G ?w2))
          (snd (decideOperations env ?G ?w2))"
      using g ne Gne by (simp add: extractAndStoreMemories_def Let_def gc case_prod_unfold)
    have u: "\<exists>docs. memories (extractAndStoreMemories env uid cid msgs w) = memories w @ docs
                 \<and> map m_content docs =
                     map em_content (filter (survives env uid (memories w)) (ex_memories ex))
                 \<and> (\<forall>doc \<in> set docs. m_invalidAt doc = None)"
      if "uniqueExisting ?G = []"
    proof -
      from that have d: "decideOperations env ?G ?w2 =
          (addAll ''No similar existing memories found'' ?G, ?w2)"
        by (simp add: decideOperations_def)
      from insertCandidates_result[of env uid cid ?w2 ?G] obtain docs where
        docs: "memories (foldl (insertCandidate env uid cid) ?w2 ?G) = memories ?w2 @ docs"
          "map m_content docs = map (\<lambda>e. em_content (mc_memory e)) ?G"
          "\<forall>doc \<in> set docs. m_invalidAt doc = None \<and> m_userId doc = uid"
        by blast
      have "map (\<lambda>e. em_content (mc_memory e)) ?G = map em_content (map mc_memory ?G)"
        by (simp add: comp_def)
      with docs(2) m have "map m_content docs =
          map em_content (filter (survives env uid (memories w)) (ex_memories ex))"
        by simp
      moreover have "memories (extractAndStoreMemories env uid cid msgs w) = memories w @ docs"
        unfolding run d fst_conv snd_conv execute_addAll docs(1) using k by simp
      ultimately show ?thesis using docs(3) by blast
    qed
    from m run u show ?thesis by blast
  qed
  from A P B S X C D E show ?thesis by blast
qed

theorem failed_candidates_are_dropped_witness:
  "filter (survives flakyEnv ''u1'' (memories emptyWorld)) [brokenCand, candX] = [candX]
   \<and> lookupEntry (fst (gatherContext flakyEnv ''u1'' [brokenCand, candX] emptyWorld)) 0 =
        Some \<lparr> mc_memory = candX, mc_embedding = [1], mc_similar = [] \<rparr>
   \<and> map mc_memory (fst (gatherContext flakyEnv ''u1'' [brokenCand, candX] emptyWorld)) = [candX]
   \<and> newMemoriesForPrompt (fst (gatherContext flakyEnv ''u1'' [brokenCand, candX] emptyWorld)) =
        [\<lparr> p_index = 0, p_content = ''X'', p_type = Semantic \<rparr>]
   \<and> map m_content (memories (executeDecision flakyEnv ''u1'' ''c1''
        (fst (gatherContext flakyEnv ''u1'' [brokenCand, candX] emptyWorld)) emptyWorld addKeep)) = [''X'']
   \<and> executeDecision flakyEnv ''u1'' ''c1''
        (fst (gatherContext flakyEnv ''u1'' [brokenCand, candX] emptyWorld)) emptyWorld addSecond = emptyWorld
   \<and> generateExtraction extractNoEmbedEnv (coreMemoryText (getCoreMemoryBlocks ''u1'' profileWorld))
         (conversationText [(''user'', ''hi'')]) =
        Some \<lparr> ex_memories =
                 [\<lparr> em_content = ''User is called Alex'', em_type = Semantic, em_keywords = [''name''] \<rparr>,
                  \<lparr> em_content = ''Partner is called Jordan'', em_type = Semantic, em_keywords = [''partner''] \<rparr>],
               ex_core_memory_updates =
                 [\<lparr> cu_label = ''user_profile'', cu_content = ''Alex, anxious attachment'' \<rparr>] \<rparr>
   \<and> memories (extractAndStoreMemories extractNoEmbedEnv ''u1'' ''c1'' [(''user'', ''hi'')] profileWorld) = []
   \<and> decisionCalls (extractAndStoreMemories extractNoEmbedEnv ''u1'' ''c1'' [(''user'', ''hi'')] profileWorld) = 0
   \<and> storeLog (extractAndStoreMemories extractNoEmbedEnv ''u1'' ''c1'' [(''user'', ''hi'')] profileWorld) =
        [PatchCoreBlock ''b1'' ''Alex, anxious attachment'' 1000]
   \<and> embedLog (extractAndStoreMemories extractNoEmbedEnv ''u1'' ''c1'' [(''user'', ''hi'')] profileWorld) =
        [''User is called Alex'', ''Partner is called Jordan'']
   \<and> generateExtraction partialEnv (coreMemoryText (getCoreMemoryBlocks ''u1'' emptyWorld))
         (conversationText [(''user'', ''hi'')]) =
        Some \<lparr> ex_memories = [brokenCand, candX], ex_core_memory_updates = [] \<rparr>
   \<and> map m_content (memories (extractAndStoreMemories partialEnv ''u1'' ''c1'' [(''user'', ''hi'')]
        emptyWorld)) = [''X'']"
proof -
  let ?ex = "\<lparr> ex_memories =
                 [\<lparr> em_content = ''User is called Alex'', em_type = Semantic, em_keywords = [''name''] \<rparr>,
                  \<lparr> em_content = ''Partner is called Jordan'', em_type = Semantic, em_keywords = [''partner''] \<rparr>],
               ex_core_memory_updates =
                 [\<lparr> cu_label = ''user_profile'', cu_content = ''Alex, anxious attachment'' \<rparr>] \<rparr>"
  let ?g = "fst (gatherContext flakyEnv ''u1'' [brokenCand, candX] emptyWorld)"
  have sv: "filter (survives flakyEnv ''u1'' (memories emptyWorld)) [brokenCand, candX] = [candX]"
    by (simp add: survives_def flakyEnv_def quietEnv_def brokenCand_def candX_def)
  have lk: "lookupEntry ?g 0 = Some \<lparr> mc_memory = candX, mc_embedding = [1], mc_similar = [] \<rparr>"
    by (simp add: lookupEntry_def generateEmbedding_def flakyEnv_def quietEnv_def brokenCand_def
          candX_def)
  note t1 = failed_candidates_are_dropped[of flakyEnv "''u1''" "[brokenCand, candX]" emptyWorld
      "''c1''" "[]"]
  from t1 have 1: "map mc_memory ?g = [candX]"
    unfolding sv by (rule conjunct1)
  from t1 have p: "newMemoriesForPrompt ?g =
        map (\<lambda>(i, c). \<lparr> p_index = i, p_content = em_content c, p_type = em_type c \<rparr>)
         (enumerate 0 [candX])"
    unfolding sv by (rule conjunct2[THEN conjunct1])
  then have p': "newMemoriesForPrompt ?g = [\<lparr> p_index = 0, p_content = ''X'', p_type = Semantic \<rparr>]"
    by (simp add: candX_def)
  have k: "0 \<le> new_memory_index addKeep
              \<and> new_memory_index addKeep < int (length [candX])
              \<and> d_action addKeep = ADD \<and> d_content addKeep = None"
    by (simp add: addKeep_def)
  from t1 have "\<forall>d w'. 0 \<le> new_memory_index d
              \<and> new_memory_index d < int (length [candX])
              \<and> d_action d = ADD \<and> d_content d = None
         \<longrightarrow> memories (executeDecision flakyEnv ''u1'' ''c1'' ?g w' d) =
               memories w' @
                 [newMemory flakyEnv ''u1'' ''c1'' w'
                    (em_content ([candX] ! nat (new_memory_index d)))
                    (mc_embedding (?g ! nat (new_memory_index d)))
                    ([candX] ! nat (new_memory_index d))]"
    unfolding sv by blast
  from this[rule_format, OF k]
  have x: "map m_content (memories (executeDecision flakyEnv ''u1'' ''c1'' ?g emptyWorld addKeep)) = [''X'']"
    by (simp add: addKeep_def newMemory_def candX_def emptyWorld_def)
  have k2: "new_memory_index addSecond < 0 \<or> int (length [candX]) \<le> new_memory_index addSecond"
    by (simp add: addSecond_def)
  from t1 have "\<forall>d w'. (new_memory_index d < 0 \<or> int (length [candX]) \<le> new_memory_index d)
         \<longrightarrow> executeDecision flakyEnv ''u1'' ''c1'' ?g w' d = w'"
    unfolding sv by blast
  from this[rule_format, OF k2]
  have s: "executeDecision flakyEnv ''u1'' ''c1'' ?g emptyWorld addSecond = emptyWorld" .
  have ge: "generateExtraction extractNoEmbedEnv (coreMemoryText (getCoreMemoryBlocks ''u1'' profileWorld))
         (conversationText [(''user'', ''hi'')]) = Some ?ex"
    by (simp add: generateExtraction_def extractNoEmbedEnv_def quietEnv_def rawTwo_def
          extractionSchema_def parseMemory_def parseType_def parseCoreUpdate_def)
  have ne: "ex_memories ?ex \<noteq> []" by simp
  have af: "\<forall>c \<in> set (ex_memories ?ex). \<not> survives extractNoEmbedEnv ''u1'' (memories profileWorld) c"
    by (simp add: survives_def extractNoEmbedEnv_def quietEnv_def)
  note t2 = failed_candidates_are_dropped[of extractNoEmbedEnv "''u1''" "[]" profileWorld
      "''c1''" "[(''user'', ''hi'')]"]
  from t2 ge ne af
  have e: "extractAndStoreMemories extractNoEmbedEnv ''u1'' ''c1'' [(''user'', ''hi'')] profileWorld =
           (applyCoreUpdates ''u1'' (ex_core_memory_updates ?ex) profileWorld)
             \<lparr> embedLog := embedLog profileWorld @ map em_content (ex_memories ?ex) \<rparr>"
    by blast
  have ac: "applyCoreUpdates ''u1'' (ex_core_memory_updates ?ex) profileWorld =
      profileWorld \<lparr> coreMemoryBlocks := [profileBlock \<lparr> cb_content := ''Alex, anxious attachment'', cb_updatedAt := 1000 \<rparr>],
                     storeLog := [PatchCoreBlock ''b1'' ''Alex, anxious attachment'' 1000] \<rparr>"
    by (simp add: validLabels_def updateCoreMemoryInternal_def profileWorld_def emptyWorld_def
          profileBlock_def)
  have 2: "memories (extractAndStoreMemories extractNoEmbedEnv ''u1'' ''c1'' [(''user'', ''hi'')] profileWorld) = []"
      "decisionCalls (extractAndStoreMemories extractNoEmbedEnv ''u1'' ''c1'' [(''user'', ''hi'')] profileWorld) = 0"
      "storeLog (extractAndStoreMemories extractNoEmbedEnv ''u1'' ''c1'' [(''user'', ''hi'')] profileWorld) =
        [PatchCoreBlock ''b1'' ''Alex, anxious attachment'' 1000]"
      "embedLog (extractAndStoreMemories extractNoEmbedEnv ''u1'' ''c1'' [(''user'', ''hi'')] profileWorld) =
        [''User is called Alex'', ''Partner is called Jordan'']"
    unfolding e ac by (simp_all add: profileWorld_def emptyWorld_def)
  let ?exP = "\<lparr> ex_memories = [brokenCand, candX], ex_core_memory_updates = [] \<rparr>"
  have gp: "generateExtraction partialEnv (coreMemoryText (getCoreMemoryBlocks ''u1'' emptyWorld))
         (conversationText [(''user'', ''hi'')]) = Some ?exP"
    by (simp add: generateExtraction_def partialEnv_def flakyEnv_def quietEnv_def rawPartial_def
          extractionSchema_def parseMemory_def parseType_def brokenCand_def candX_def)
  have svp: "filter (survives partialEnv ''u1'' (memories emptyWorld)) (ex_memories ?exP) = [candX]"
    by (simp add: survives_def partialEnv_def flakyEnv_def quietEnv_def brokenCand_def candX_def)
  have sp: "\<exists>c \<in> set (ex_memories ?exP). survives partialEnv ''u1'' (memories emptyWorld) c"
    by (simp add: survives_def partialEnv_def flakyEnv_def quietEnv_def brokenCand_def candX_def)
  have up: "uniqueExisting (List.map_filter (contextOf partialEnv ''u1'' emptyWorld) (ex_memories ?exP)) = []"
    by (simp add: uniqueExisting_def existingByID_def contextOf_def partialEnv_def flakyEnv_def
          quietEnv_def brokenCand_def candX_def)
  note t3 = failed_candidates_are_dropped[of partialEnv "''u1''" "[]" emptyWorld
      "''c1''" "[(''user'', ''hi'')]"]
  from t3 gp sp up obtain docs where
    d: "memories (extractAndStoreMemories partialEnv ''u1'' ''c1'' [(''user'', ''hi'')] emptyWorld) =
          memories emptyWorld @ docs"
       "map m_content docs =
          map em_content (filter (survives partialEnv ''u1'' (memories emptyWorld)) (ex_memories ?exP))"
    by blast
  have 3: "map m_content (memories (extractAndStoreMemories partialEnv ''u1'' ''c1'' [(''user'', ''hi'')]
        emptyWorld)) = [''X'']"
    using d(2)[unfolded svp] unfolding d(1) by (simp add: emptyWorld_def candX_def)
  from sv lk 1 p' x s ge 2 gp 3 show ?thesis by blast
qed

subsection \<open>Unknown labels in the extraction\<close>

lemma parseAll_None_iff: "parseAll f xs = None \<longleftrightarrow> (\<exists>x \<in> set xs. f x = None)"
  by (induction xs) (auto split: option.splits)

lemma parseAll_Some:
  "parseAll f xs = Some ys \<Longrightarrow> list_all2 (\<lambda>x y. f x = Some y) xs ys"
  by (induction xs arbitrary: ys) (auto split: option.splits)

lemma parseCoreUpdate_None_iff: "parseCoreUpdate r = None \<longleftrightarrow> rc_label r \<notin> set validLabels"
  by (simp add: parseCoreUpdate_def validLabels_def)

lemma parseCoreUpdate_Some:
  "parseCoreUpdate r = Some u \<Longrightarrow>
     cu_label u = rc_label r \<and> cu_content u = rc_content r \<and> cu_label u \<in> set validLabels"
  by (auto simp: parseCoreUpdate_def validLabels_def split: if_splits)

lemma extractionSchema_unknown_label:
  assumes "\<exists>u \<in> set (raw_core_memory_updates raw). rc_label u \<notin> set validLabels"
  shows "extractionSchema raw = None"
proof -
  from assms have "parseAll parseCoreUpdate (raw_core_memory_updates raw) = None"
    by (simp add: parseAll_None_iff parseCoreUpdate_None_iff)
  then show ?thesis by (simp add: extractionSchema_def split: option.splits)
qed

lemma extractionSchema_labels:
  assumes "extractionSchema raw = Some ex"
  shows "\<forall>u \<in> set (ex_core_memory_updates ex). cu_label u \<in> set validLabels"
proof -
  from assms obtain cs where cs: "parseAll parseCoreUpdate (raw_core_memory_updates raw) = Some cs"
      and ex: "ex_core_memory_updates ex = cs"
    by (auto simp: extractionSchema_def split: option.splits)
  from parseAll_Some[OF cs] have "\<forall>u \<in> set cs. cu_label u \<in> set validLabels"
    by (induction rule: list_all2_induct) (auto dest: parseCoreUpdate_Some)
  with ex show ?thesis by simp
qed

text \<open>
  An answer with an unknown label fails the schema, so \<open>extractAndStoreMemories\<close> returns
  with the world unchanged; an extraction that passes the schema has valid labels only.
\<close>

lemma extraction_with_unknown_label_is_rejected:
  "(extractionModel env (coreMemoryText (getCoreMemoryBlocks uid w)) (conversationText msgs) = Some raw
      \<and> (\<exists>u \<in> set (raw_core_memory_updates raw). rc_label u \<notin> set validLabels)
      \<longrightarrow> extractAndStoreMemories env uid cid msgs w = w)
   \<and> (\<forall>ex. extractionSchema raw = Some ex \<longrightarrow>
         filter (\<lambda>u. cu_label u \<in> set validLabels) (ex_core_memory_updates ex) =
           ex_core_memory_updates ex)"
proof (intro conjI impI allI)
  assume "extractionModel env (coreMemoryText (getCoreMemoryBlocks uid w)) (conversationText msgs) = Some raw
      \<and> (\<exists>u \<in> set (raw_core_memory_updates raw). rc_label u \<notin> set validLabels)"
  then have "generateExtraction env (coreMemoryText (getCoreMemoryBlocks uid w)) (conversationText msgs) = None"
    by (simp add: generateExtraction_def extractionSchema_unknown_label)
  then show "extractAndStoreMemories env uid cid msgs w = w"
    by (simp add: extractAndStoreMemories_def)
next
  fix ex
  assume "extractionSchema raw = Some ex"
  from extractionSchema_labels[OF this]
  show "filter (\<lambda>u. cu_label u \<in> set validLabels) (ex_core_memory_updates ex) =
           ex_core_memory_updates ex"
    by (simp add: filter_id_conv)
qed

text \<open>
  C8. The claim says that a core memory update with an unknown label is dropped while the
  rest of the batch is processed. The guard of step 4 does exactly that on the entries it is
  given: of \<open>user_profile\<close> and \<open>hacked_field\<close> it applies the first and skips the second.
  But an answer of the model that holds such an entry fails \<open>extractionSchema\<close>, whose label
  is a \<open>z.enum\<close>, so \<open>generateObject\<close> throws and the pipeline returns before the guard:
  with \<open>hacked_field\<close> next to a valid update and two valid memories nothing of the batch
  is processed, while the same answer without that entry updates the profile block and
  inserts both memories.
\<close>

theorem unknown_label_drops_whole_batch:
  "raw_core_memory_updates rawHacked =
     [\<lparr> rc_label = ''user_profile'', rc_content = ''Alex, anxious attachment'' \<rparr>,
      \<lparr> rc_label = ''hacked_field'', rc_content = ''Should be filtered out'' \<rparr>]
   \<and> length (raw_memories rawHacked) = 2
   \<and> coreMemoryBlocks
        (applyCoreUpdates ''u1''
           [\<lparr> cu_label = ''user_profile'', cu_content = ''Alex, anxious attachment'' \<rparr>,
            \<lparr> cu_label = ''hacked_field'', cu_content = ''Should be filtered out'' \<rparr>]
           profileWorld) =
       [profileBlock \<lparr> cb_content := ''Alex, anxious attachment'', cb_updatedAt := 1000 \<rparr>]
   \<and> extractionSchema rawHacked = None
   \<and> extractAndStoreMemories hackedEnv ''u1'' ''c1'' [(''user'', ''hi'')] profileWorld = profileWorld
   \<and> coreMemoryBlocks (extractAndStoreMemories twoEnv ''u1'' ''c1'' [(''user'', ''hi'')] profileWorld) =
       [profileBlock \<lparr> cb_content := ''Alex, anxious attachment'', cb_updatedAt := 1000 \<rparr>]
   \<and> map m_content (memories (extractAndStoreMemories twoEnv ''u1'' ''c1'' [(''user'', ''hi'')] profileWorld)) =
       [''User is called Alex'', ''Partner is called Jordan'']"
  by (simp add: rawHacked_def rawTwo_def extractionSchema_def parseMemory_def parseType_def
        parseCoreUpdate_def extractAndStoreMemories_def generateExtraction_def hackedEnv_def
        twoEnv_def quietEnv_def validLabels_def updateCoreMemoryInternal_def profileWorld_def
        profileBlock_def emptyWorld_def generateEmbedding_def Let_def decideOperations_def
        uniqueExisting_def existingByID_def addAll_def executeDecisions_def executeDecision_def
        lookupEntry_def orElse_def addInternal_def)

subsection \<open>The conversation handed to extraction\<close>

lemma upt_21: "[0..<21] = [0,1,2,3,4,5,6,7,8,9,10,11,12,13,14,15,16,17,18,19,20]"
  by (simp add: upt_rec)

lemma handOff_all:
  "map snd (handOff cid w) =
     map msg_content (filter (\<lambda>m. msg_conversationId m = cid) (messages w))"
  by (simp add: handOff_def getConversationMessages_def comp_def)

lemma handOff_long: "length (handOff ''c1'' longConversation) = 21"
  by (simp add: handOff_def getConversationMessages_def longConversation_def)

lemma processQueue_passes_whole_conversation: "map_option embedLog (processQueue echoEnv queuedLongConversation) =
    Some [conversationText (handOff ''c1'' longConversation)]"
proof -
  have h: "handOff ''c1'' (queuedLongConversation \<lparr> memoryQueue := q, storeLog := l \<rparr>) = handOff ''c1'' longConversation" for q l
    by (simp add: handOff_def getConversationMessages_def queuedLongConversation_def)
  have n: "length (handOff ''c1'' longConversation) = 21"
    by (simp add: handOff_def getConversationMessages_def longConversation_def)
  from n have ne: "handOff ''c1'' longConversation \<noteq> []" by auto
  have el: "embedLog queuedLongConversation = []"
    by (simp add: queuedLongConversation_def longConversation_def emptyWorld_def)
  have p: "getPendingQueue queuedLongConversation = [\<lparr> q_id = ''q1'', q_userId = ''u1'', q_conversationId = ''c1'', q_status = Pending,
          q_createdAt = 900, q_processedAt = None \<rparr>]"
    by (simp add: getPendingQueue_def queuedLongConversation_def)
  have mp: "markProcessing ''q1'' queuedLongConversation = Some (queuedLongConversation \<lparr> memoryQueue := [\<lparr> q_id = ''q1'', q_userId = ''u1'', q_conversationId = ''c1'', q_status = Processing,
          q_createdAt = 900, q_processedAt = None \<rparr>], storeLog := [PatchQueueStatus ''q1'' Processing None] \<rparr>)"
    by (simp add: markProcessing_def patchQueue_def queuedLongConversation_def longConversation_def emptyWorld_def)
  show ?thesis
    unfolding processQueue_def p
    apply (simp add: processItem_def mp h ne Let_def)
    apply (simp add: extractAndStoreMemories_def generateExtraction_def echoEnv_def noEmbedEnv_def quietEnv_def
        extractionSchema_def parseMemory_def parseType_def Let_def generateEmbedding_def
        markCompleted_def patchQueue_def el)
    done
qed

text \<open>
  C7. The claim says that the extraction stage sees at most the 20 most recent messages.
  \<open>getConversationMessages\<close> collects every message of the conversation and
  \<open>processQueue\<close> hands all of them on: for a conversation of 21 messages the extraction
  model is given the text of all 21, beginning with the oldest one, which the window of the
  claim leaves out.
\<close>

theorem extraction_window_holds_21_messages:
  "length (filter (\<lambda>m. msg_conversationId m = ''c1'') (messages longConversation)) = 21
   \<and> length (handOff ''c1'' longConversation) = 21
   \<and> map_option embedLog (processQueue echoEnv queuedLongConversation) =
        Some [conversationText (handOff ''c1'' longConversation)]
   \<and> hd (handOff ''c1'' longConversation) = (''user'', ''oldest'')
   \<and> take 12 (conversationText (handOff ''c1'' longConversation)) = ''USER: oldest''
   \<and> length (specWindow (handOff ''c1'' longConversation)) = 20
   \<and> (''user'', ''oldest'') \<notin> set (specWindow (handOff ''c1'' longConversation))"
proof -
  have h: "hd (handOff ''c1'' longConversation) = (''user'', ''oldest'')"
    by (simp add: handOff_def getConversationMessages_def longConversation_def upt_21
          roleString_def)
  have t: "take 12 (conversationText (handOff ''c1'' longConversation)) = ''USER: oldest''"
    by (simp add: handOff_def getConversationMessages_def longConversation_def upt_21
          roleString_def conversationText_def toUpperCase_def upperChar_def char_of_def
          bit_Suc_0_iff)
  have n: "(''user'', ''oldest'') \<notin> set (specWindow (handOff ''c1'' longConversation))"
    by (simp add: specWindow_def handOff_long)
       (simp add: handOff_def getConversationMessages_def longConversation_def upt_21
          roleString_def)
  have f: "length (filter (\<lambda>m. msg_conversationId m = ''c1'') (messages longConversation)) = 21"
    by (simp add: longConversation_def)
  from f h t n show ?thesis
    by (simp add: specWindow_def handOff_long processQueue_passes_whole_conversation)
qed

subsection \<open>Stores written by the code, and the active-only filter\<close>

text \<open>
  The empty store is written by the code, and every operation that writes memories keeps a
  store so, as long as the clock does not read 0.
\<close>

lemma updateCoreMemoryInternal_clock: "clock (updateCoreMemoryInternal uid l c w) = clock w"
  by (simp add: updateCoreMemoryInternal_def split: option.splits)

lemma applyCoreUpdates_clock: "clock (applyCoreUpdates uid us w) = clock w"
  by (induction us arbitrary: w) (simp_all add: updateCoreMemoryInternal_clock)

lemma invalidAtWritten_cong:
  "memories w' = memories w \<Longrightarrow> invalidAtWritten w' = invalidAtWritten w"
  by (simp add: invalidAtWritten_def)

lemma invalidAtWritten_empty: "memories w = [] \<Longrightarrow> invalidAtWritten w"
  by (simp add: invalidAtWritten_def)

lemma patchInvalidAt_written:
  "t \<noteq> 0 \<Longrightarrow> \<forall>m \<in> set ms. m_invalidAt m \<noteq> Some 0 \<Longrightarrow>
   \<forall>m \<in> set (patchInvalidAt mid t ms). m_invalidAt m \<noteq> Some 0"
  by (induction ms) auto

lemma invalidateInternal_written:
  assumes "clock w \<noteq> 0" and "invalidAtWritten w" and "invalidateInternal mid w = Some w'"
  shows "invalidAtWritten w' \<and> clock w' = clock w"
  using assms patchInvalidAt_written[of "clock w" "memories w" mid]
  by (auto simp: invalidateInternal_def invalidAtWritten_def split: option.splits)

lemma addInternal_written:
  assumes "invalidAtWritten w"
  shows "invalidAtWritten (snd (addInternal env uid c emb ty kws conv w))
     \<and> clock (snd (addInternal env uid c emb ty kws conv w)) = clock w"
  using assms by (auto simp: addInternal_def invalidAtWritten_def Let_def)

lemma generateEmbedding_written:
  "invalidAtWritten (snd (generateEmbedding env txt w)) = invalidAtWritten w"
  "clock (snd (generateEmbedding env txt w)) = clock w"
  by (simp_all add: generateEmbedding_def invalidAtWritten_def)

lemma executeDecision_written:
  assumes c: "clock w \<noteq> 0" and i: "invalidAtWritten w"
  shows "invalidAtWritten (executeDecision env uid cid mwc w d)
     \<and> clock (executeDecision env uid cid mwc w d) = clock w"
proof (cases "lookupEntry mwc (new_memory_index d)")
  case None
  with c i show ?thesis by (simp add: executeDecision_def)
next
  case (Some entry)
  have emb: "invalidAtWritten (w \<lparr> embedLog := l \<rparr>)" "clock (w \<lparr> embedLog := l \<rparr>) = clock w" for l
    using i by (simp_all add: invalidAtWritten_def)
  show ?thesis
  proof (cases "d_action d")
    case ADD
    with Some i show ?thesis
      using addInternal_written[OF i] addInternal_written[OF emb(1)] emb
      by (auto simp: executeDecision_def generateEmbedding_def Let_def split: option.splits)
  next
    case UPDATE
    show ?thesis
    proof (cases "truthyString (target_memory_id d) \<and> truthyString (d_content d)")
      case False
      with Some UPDATE c i show ?thesis by (auto simp: executeDecision_def)
    next
      case True
      show ?thesis
      proof (cases "invalidateInternal (the (target_memory_id d)) w")
        case None
        with Some UPDATE True c i show ?thesis by (simp add: executeDecision_def)
      next
        case (Some w1)
        from invalidateInternal_written[OF c i Some]
        have w1: "invalidAtWritten w1" "clock w1 = clock w" by simp_all
        have emb1: "invalidAtWritten (w1 \<lparr> embedLog := l \<rparr>)" "clock (w1 \<lparr> embedLog := l \<rparr>) = clock w" for l
          using w1 by (simp_all add: invalidAtWritten_def)
        from \<open>lookupEntry mwc (new_memory_index d) = Some entry\<close> UPDATE True Some
        show ?thesis
          using addInternal_written[OF emb1(1)] emb1
          by (auto simp: executeDecision_def generateEmbedding_def split: option.splits)
      qed
    qed
  next
    case INVALIDATE
    show ?thesis
    proof (cases "invalidateInternal (the (target_memory_id d)) w")
      case None
      with Some INVALIDATE c i show ?thesis by (simp add: executeDecision_def)
    next
      case (Some w1)
      from invalidateInternal_written[OF c i Some]
      have w1: "invalidAtWritten w1" "clock w1 = clock w" by simp_all
      with \<open>lookupEntry mwc (new_memory_index d) = Some entry\<close> INVALIDATE Some c i
      show ?thesis by (simp add: executeDecision_def)
    qed
  next
    case NOOP
    with Some c i show ?thesis by (simp add: executeDecision_def)
  qed
qed

lemma executeDecisions_written:
  assumes "clock w \<noteq> 0" and "invalidAtWritten w"
  shows "invalidAtWritten (executeDecisions env uid cid mwc ds w)
     \<and> clock (executeDecisions env uid cid mwc ds w) = clock w"
  using assms unfolding executeDecisions_def
proof (induction ds arbitrary: w)
  case Nil
  then show ?case by simp
next
  case (Cons d ds)
  from executeDecision_written[OF Cons.prems, of env uid cid mwc d]
  have 1: "invalidAtWritten (executeDecision env uid cid mwc w d)"
    and 2: "clock (executeDecision env uid cid mwc w d) = clock w" by simp_all
  from Cons.prems(1) 2 have 3: "clock (executeDecision env uid cid mwc w d) \<noteq> 0" by simp
  from Cons.IH[OF 3 1] 2 show ?case by simp
qed

lemma decideOperations_world:
  "memories (snd (decideOperations env mwc w)) = memories w
   \<and> clock (snd (decideOperations env mwc w)) = clock w"
  by (simp add: decideOperations_def Let_def split: option.splits)

lemma extractAndStoreMemories_written:
  assumes c: "clock w \<noteq> 0" and i: "invalidAtWritten w"
  shows "invalidAtWritten (extractAndStoreMemories env uid cid msgs w)"
proof -
  have k: "invalidAtWritten w'" "clock w' \<noteq> 0" if "memories w' = memories w" "clock w' = clock w" for w'
    using that c i by (simp_all add: invalidAtWritten_def)
  have a: "memories (applyCoreUpdates uid us w) = memories w" "clock (applyCoreUpdates uid us w) = clock w" for us
    by (simp_all add: applyCoreUpdates_keeps applyCoreUpdates_clock)
  have g: "memories (snd (gatherContext env uid ms (applyCoreUpdates uid us w))) = memories w"
          "clock (snd (gatherContext env uid ms (applyCoreUpdates uid us w))) = clock w" for ms us
    by (simp_all add: gatherContext_eq a)
  have d: "memories (snd (decideOperations env mwc (snd (gatherContext env uid ms (applyCoreUpdates uid us w))))) = memories w"
          "clock (snd (decideOperations env mwc (snd (gatherContext env uid ms (applyCoreUpdates uid us w))))) = clock w" for ms us mwc
    by (simp_all add: decideOperations_world g)
  show ?thesis
    using i k[OF a] k[OF g] executeDecisions_written[OF k(2)[OF d] k(1)[OF d]]
    by (auto simp: extractAndStoreMemories_def Let_def split: option.splits prod.splits
             dest!: arg_cong[where f=snd])
qed

lemma invalidate_written:
  assumes "clock w \<noteq> 0" and "invalidAtWritten w" and "invalidate mid w = Some w'"
  shows "invalidAtWritten w'"
  using invalidateInternal_written[OF assms(1,2)] assms(3) by (simp add: invalidate_def)

lemma add_written:
  "invalidAtWritten w \<Longrightarrow> invalidAtWritten (snd (add env uid c emb ty kws conv w))"
  by (simp add: add_def addInternal_written)

lemma addFromTool_written:
  "invalidAtWritten w \<Longrightarrow> invalidAtWritten (snd (addFromTool env uid c ty kws w))"
  by (auto simp: addFromTool_def invalidAtWritten_def Let_def generateEmbedding_def
           split: option.splits)

lemma validMemories_active:
  assumes "invalidAtWritten w"
  shows "validMemories w results = List.map_filter (activeHit w) results"
proof (induction results)
  case Nil
  show ?case by simp
next
  case (Cons hit results)
  obtain rid sc where hit: "hit = (rid, sc)" by (cases hit)
  show ?case
  proof (cases "getById rid w")
    case None
    with Cons show ?thesis by (simp add: hit activeHit_def)
  next
    case (Some m)
    from getById_Some[OF Some] assms have "m_invalidAt m \<noteq> Some 0"
      by (simp add: invalidAtWritten_def)
    then have "falsyNumber (m_invalidAt m) \<longleftrightarrow> m_invalidAt m = None"
      by (auto simp: falsyNumber_iff)
    with Cons Some show ?thesis by (simp add: hit activeHit_def)
  qed
qed

lemma collectSimilar_active:
  assumes "invalidAtWritten w"
  shows "collectSimilar w results =
     map (\<lambda>(m, sc). \<lparr> s_id = m_id m, s_content = m_content m, s_type = m_type m, s_score = sc \<rparr>)
       (List.map_filter (activeHit w) results)"
proof (induction results)
  case Nil
  show ?case by simp
next
  case (Cons hit results)
  obtain rid sc where hit: "hit = (rid, sc)" by (cases hit)
  show ?case
  proof (cases "getById rid w")
    case None
    with Cons show ?thesis by (simp add: hit activeHit_def)
  next
    case (Some m)
    from getById_Some[OF Some] assms have "m_invalidAt m \<noteq> Some 0"
      by (simp add: invalidAtWritten_def)
    then have "falsyNumber (m_invalidAt m) \<longleftrightarrow> m_invalidAt m = None"
      by (auto simp: falsyNumber_iff)
    with Cons Some show ?thesis by (simp add: hit activeHit_def)
  qed
qed

lemma in_set_map_filter:
  "y \<in> set (List.map_filter f xs) \<longleftrightarrow> (\<exists>x \<in> set xs. f x = Some y)"
  by (induction xs) (auto split: option.splits)

lemma activeHit_Some:
  "activeHit w hit = Some (m, sc) \<Longrightarrow>
     getById (fst hit) w = Some m \<and> m \<in> set (memories w) \<and> m_invalidAt m = None \<and> sc = snd hit"
  by (auto simp: activeHit_def split: option.splits if_splits dest: getById_Some)

text \<open>
  C2. In a store written by the code, whatever the index returns, the results of \<open>search\<close>
  are exactly the returned hits whose document exists and has \<open>invalidAt\<close> absent: a fact
  with \<open>invalidAt\<close> set never appears, and every returned result has \<open>invalidAt\<close> absent.
  The similar sets gathered during reconciliation are built by the same active-only filter.
\<close>

theorem search_excludes_invalidated:
  assumes written: "invalidAtWritten w"
  shows "(\<forall>rs. search env uid emb optLimit w = Some rs \<longrightarrow>
            (\<exists>results. vectorSearch env (memories w) emb (case optLimit of None \<Rightarrow> 10 | Some l \<Rightarrow> l) uid
                          = Some results
                \<and> rs = List.map_filter (activeHit w) results)
          \<and> (\<forall>(m, sc) \<in> set rs. m \<in> set (memories w) \<and> m_invalidAt m = None)
          \<and> (\<forall>f. m_invalidAt f \<noteq> None \<longrightarrow> f \<notin> fst ` set rs))
     \<and> (\<forall>e \<in> set (fst (gatherContext env uid cands w)).
            (\<exists>results. vectorSearch env (memories w) (mc_embedding e) 5 uid = Some results
                \<and> mc_similar e =
                    map (\<lambda>(m, sc). \<lparr> s_id = m_id m, s_content = m_content m, s_type = m_type m,
                                     s_score = sc \<rparr>)
                      (List.map_filter (activeHit w) results))
          \<and> (\<forall>s \<in> set (mc_similar e).
                \<exists>m. getById (s_id s) w = Some m \<and> m_invalidAt m = None))"
proof -
  have A: "(\<exists>results. vectorSearch env (memories w) emb (case optLimit of None \<Rightarrow> 10 | Some l \<Rightarrow> l) uid
                          = Some results
                \<and> rs = List.map_filter (activeHit w) results)
          \<and> (\<forall>(m, sc) \<in> set rs. m \<in> set (memories w) \<and> m_invalidAt m = None)
          \<and> (\<forall>f. m_invalidAt f \<noteq> None \<longrightarrow> f \<notin> fst ` set rs)"
    if "search env uid emb optLimit w = Some rs" for rs
  proof -
    from that obtain results where
      v: "vectorSearch env (memories w) emb (case optLimit of None \<Rightarrow> 10 | Some l \<Rightarrow> l) uid = Some results"
      and rs: "rs = validMemories w results"
      by (auto simp: search_def Let_def split: option.splits)
    have rs': "rs = List.map_filter (activeHit w) results"
      unfolding rs by (rule validMemories_active[OF written])
    have 1: "\<forall>(m, sc) \<in> set rs. m \<in> set (memories w) \<and> m_invalidAt m = None"
      unfolding rs' by (auto simp: in_set_map_filter dest!: activeHit_Some)
    then have 2: "\<forall>f. m_invalidAt f \<noteq> None \<longrightarrow> f \<notin> fst ` set rs"
      by fastforce
    from v rs' 1 2 show ?thesis by blast
  qed
  have B: "(\<exists>results. vectorSearch env (memories w) (mc_embedding e) 5 uid = Some results
                \<and> mc_similar e =
                    map (\<lambda>(m, sc). \<lparr> s_id = m_id m, s_content = m_content m, s_type = m_type m,
                                     s_score = sc \<rparr>)
                      (List.map_filter (activeHit w) results))
          \<and> (\<forall>s \<in> set (mc_similar e).
                \<exists>m. getById (s_id s) w = Some m \<and> m_invalidAt m = None)"
    if e: "e \<in> set (fst (gatherContext env uid cands w))" for e
  proof -
    from e obtain c where "contextOf env uid w c = Some e"
      by (auto simp: gatherContext_eq List.map_filter_def)
    then obtain results where
      v: "vectorSearch env (memories w) (mc_embedding e) 5 uid = Some results"
      and sm: "mc_similar e = collectSimilar w results"
      by (auto simp: contextOf_def split: option.splits)
    have sm': "mc_similar e =
                    map (\<lambda>(m, sc). \<lparr> s_id = m_id m, s_content = m_content m, s_type = m_type m,
                                     s_score = sc \<rparr>)
                      (List.map_filter (activeHit w) results)"
      unfolding sm by (rule collectSimilar_active[OF written])
    have "\<exists>m. getById (s_id s) w = Some m \<and> m_invalidAt m = None" if "s \<in> set (mc_similar e)" for s
    proof -
      from that obtain hit m sc where "activeHit w hit = Some (m, sc)" and "s_id s = m_id m"
        unfolding sm' by (auto simp: in_set_map_filter)
      with activeHit_Some[of w hit m sc] getById_Some[of "fst hit" w m] show ?thesis by auto
    qed
    with v sm' show ?thesis by blast
  qed
  from A B show ?thesis by blast
qed

theorem search_excludes_invalidated_witness:
  "invalidAtWritten cleanStore
   \<and> search hitEnv ''u1'' [1] None cleanStore = Some [(factF, 9/10)]
   \<and> m_invalidAt factG = Some 700
   \<and> factG \<notin> fst ` set [(factF, 9/10 :: score)]
   \<and> map (map s_id \<circ> mc_similar) (fst (gatherContext hitEnv ''u1'' [candX] cleanStore)) = [[''F'']]
   \<and> (\<exists>m. getById ''F'' cleanStore = Some m \<and> m_invalidAt m = None)"
proof -
  have wr: "invalidAtWritten cleanStore"
    by (simp add: invalidAtWritten_def cleanStore_def factF_def factG_def)
  have sr: "search hitEnv ''u1'' [1] None cleanStore = Some [(factF, 9/10)]"
    by (simp add: search_def hitEnv_def quietEnv_def cleanStore_def emptyWorld_def getById_def
        factF_def factG_def falsyNumber_def)
  have g: "m_invalidAt factG \<noteq> None" "m_invalidAt factG = Some 700"
    by (simp_all add: factG_def)
  have gc: "fst (gatherContext hitEnv ''u1'' [candX] cleanStore) =
     [\<lparr> mc_memory = candX, mc_embedding = [1], mc_similar =
       [\<lparr> s_id = ''F'', s_content = ''Partner withdraws during arguments'', s_type = Semantic, s_score = 9/10 \<rparr>] \<rparr>]"
    by (simp add: generateEmbedding_def hitEnv_def quietEnv_def cleanStore_def emptyWorld_def
        getById_def factF_def factG_def falsyNumber_def)
  note t = search_excludes_invalidated[OF wr, of hitEnv "''u1''" "[1]" None "[candX]"]
  from t sr g(1) have 1: "factG \<notin> fst ` set [(factF, 9/10 :: score)]"
    by blast
  from t have "\<forall>e \<in> set (fst (gatherContext hitEnv ''u1'' [candX] cleanStore)). \<forall>s \<in> set (mc_similar e).
        \<exists>m. getById (s_id s) cleanStore = Some m \<and> m_invalidAt m = None"
    by blast
  then have 2: "\<exists>m. getById ''F'' cleanStore = Some m \<and> m_invalidAt m = None"
    unfolding gc by simp
  from wr sr g(2) 1 2 show ?thesis unfolding gc by simp
qed

text \<open>
  The filter tests \<open>!memory.invalidAt\<close>. On a store that holds the number 0 as an
  \<open>invalidAt\<close>, which no operation writes while the clock is past the epoch, that fact
  passes the test.
\<close>

lemma search_at_zero_timestamp:
  "m_invalidAt factZ = Some 0
   \<and> factZ \<in> set (memories storeWorld)
   \<and> search hitEnv ''u1'' [1] None storeWorld = Some [(factF, 9/10), (factZ, 8/10)]"
  by (simp add: search_def hitEnv_def quietEnv_def storeWorld_def emptyWorld_def getById_def
        factF_def factG_def factZ_def falsyNumber_def)

subsection \<open>The direct insert of the agent's tool\<close>

lemma addFromTool_duplicate:
  assumes "find (\<lambda>m. m_userId m = uid \<and> m_contentHash m = Some (computeContentHash env c)
                      \<and> m_invalidAt m = None) (memories w) = Some dup"
  shows "addFromTool env uid c ty kws w = (Some (NotSaved ''duplicate''), w)"
  using assms by (simp add: addFromTool_def Let_def)

lemma addFromTool_fresh:
  assumes "\<forall>m \<in> set (memories w). m_userId m = uid \<and> m_invalidAt m = None \<longrightarrow>
             m_contentHash m \<noteq> Some (sha256 env (toLowerCaseJS env (trimJS env c)))"
      and "embedModel env c = Some e"
  shows "addFromTool env uid c ty kws w =
      (Some (Saved (newId env (idCounter w))),
       w \<lparr> memories := memories w @
              [\<lparr> m_id = newId env (idCounter w), m_userId = uid, m_content = c,
                 m_embedding = e, m_type = ty, m_keywords = kws,
                 m_contentHash = Some (sha256 env (toLowerCaseJS env (trimJS env c))),
                 m_validAt = Some (clock w), m_invalidAt = None,
                 m_sourceConversationId = None, m_createdAt = clock w \<rparr>],
           idCounter := Suc (idCounter w),
           storeLog := storeLog w @
              [InsertMemory
                \<lparr> m_id = newId env (idCounter w), m_userId = uid, m_content = c,
                  m_embedding = e, m_type = ty, m_keywords = kws,
                  m_contentHash = Some (sha256 env (toLowerCaseJS env (trimJS env c))),
                  m_validAt = Some (clock w), m_invalidAt = None,
                  m_sourceConversationId = None, m_createdAt = clock w \<rparr>],
           embedLog := embedLog w @ [c] \<rparr>)"
proof -
  from assms(1) have "find (\<lambda>m. m_userId m = uid \<and> m_contentHash m = Some (computeContentHash env c)
                      \<and> m_invalidAt m = None) (memories w) = None"
    by (auto simp: find_None_iff computeContentHash_def)
  with assms(2) show ?thesis
    by (simp add: addFromTool_def Let_def generateEmbedding_def computeContentHash_def)
qed

lemma patchInvalidAt_append_fresh:
  "mid \<notin> m_id ` set ms \<Longrightarrow> m_id doc = mid \<Longrightarrow>
   patchInvalidAt mid t (ms @ [doc]) = ms @ [doc \<lparr> m_invalidAt := Some t \<rparr>]"
  by (induction ms) auto

lemma find_append_fresh:
  "\<forall>x \<in> set xs. \<not> P x \<Longrightarrow> P x \<Longrightarrow> find P (xs @ [x]) = Some x"
  by (induction xs) auto

lemma find_append_new:
  "find P xs = None \<Longrightarrow> P x \<Longrightarrow> find P (xs @ [x]) = Some x"
  by (induction xs) (auto split: if_splits)

text \<open>
  C9. On the model of \<open>addFromTool\<close> taken from the spec: a first call for content that
  has no active fact of the owner with the same normalized hash returns success with the new
  id and inserts one active fact, stored with the digest of the trimmed and lowercased
  content; a second call for the same owner with content that is equal after trimming and
  lowercasing, while that fact is active, returns the duplicate rejection and leaves the world
  as it is. A call with content of another digest is not rejected but inserted, and so is the
  second call once the first fact has been invalidated.
\<close>

theorem addFromTool_second_call_is_duplicate:
  assumes fresh: "\<forall>m \<in> set (memories w). m_userId m = uid \<and> m_invalidAt m = None \<longrightarrow>
             m_contentHash m \<noteq> Some (sha256 env (toLowerCaseJS env (trimJS env c1)))"
      and emb: "embedModel env c1 = Some e"
      and norm: "toLowerCaseJS env (trimJS env c2) = toLowerCaseJS env (trimJS env c1)"
  shows "fst (addFromTool env uid c1 ty kws w) = Some (Saved (newId env (idCounter w)))
     \<and> memories (snd (addFromTool env uid c1 ty kws w)) =
         memories w @
           [\<lparr> m_id = newId env (idCounter w), m_userId = uid, m_content = c1,
              m_embedding = e, m_type = ty, m_keywords = kws,
              m_contentHash = Some (sha256 env (toLowerCaseJS env (trimJS env c1))),
              m_validAt = Some (clock w), m_invalidAt = None,
              m_sourceConversationId = None, m_createdAt = clock w \<rparr>]
     \<and> addFromTool env uid c2 ty' kws' (snd (addFromTool env uid c1 ty kws w)) =
         (Some (NotSaved ''duplicate''), snd (addFromTool env uid c1 ty kws w))
     \<and> (\<forall>c3 e3.
           sha256 env (toLowerCaseJS env (trimJS env c3)) \<noteq>
             sha256 env (toLowerCaseJS env (trimJS env c1))
           \<and> (\<forall>m \<in> set (memories w). m_userId m = uid \<and> m_invalidAt m = None \<longrightarrow>
                 m_contentHash m \<noteq> Some (sha256 env (toLowerCaseJS env (trimJS env c3))))
           \<and> embedModel env c3 = Some e3 \<longrightarrow>
           fst (addFromTool env uid c3 ty' kws' (snd (addFromTool env uid c1 ty kws w))) =
             Some (Saved (newId env (Suc (idCounter w))))
           \<and> map m_content
                (memories (snd (addFromTool env uid c3 ty' kws'
                                  (snd (addFromTool env uid c1 ty kws w))))) =
               map m_content (memories w) @ [c1, c3])
     \<and> (\<forall>e2. newId env (idCounter w) \<notin> m_id ` set (memories w)
              \<and> embedModel env c2 = Some e2 \<longrightarrow>
           (\<exists>w2. invalidateInternal (newId env (idCounter w))
                   (snd (addFromTool env uid c1 ty kws w)) = Some w2
              \<and> fst (addFromTool env uid c2 ty' kws' w2) =
                  Some (Saved (newId env (Suc (idCounter w))))
              \<and> map m_invalidAt (drop (length (memories w)) (memories (snd (addFromTool env uid c2 ty' kws' w2)))) =
                  [Some (clock w), None]))"
proof -
  let ?h = "sha256 env (toLowerCaseJS env (trimJS env c1))"
  let ?doc = "\<lparr> m_id = newId env (idCounter w), m_userId = uid, m_content = c1,
                m_embedding = e, m_type = ty, m_keywords = kws,
                m_contentHash = Some ?h, m_validAt = Some (clock w),
                m_invalidAt = None, m_sourceConversationId = None,
                m_createdAt = clock w \<rparr>"
  let ?w1 = "w \<lparr> memories := memories w @ [?doc], idCounter := Suc (idCounter w),
              storeLog := storeLog w @ [InsertMemory ?doc], embedLog := embedLog w @ [c1] \<rparr>"
  have first: "addFromTool env uid c1 ty kws w = (Some (Saved (newId env (idCounter w))), ?w1)"
    by (rule addFromTool_fresh[OF fresh emb])
  have none: "find (\<lambda>m. m_userId m = uid \<and> m_contentHash m = Some ?h \<and> m_invalidAt m = None)
                (memories w) = None"
    using fresh by (auto simp: find_None_iff)
  have h2: "computeContentHash env c2 = ?h"
    by (simp add: computeContentHash_def norm)
  have "find (\<lambda>m. m_userId m = uid \<and> m_contentHash m = Some (computeContentHash env c2)
                      \<and> m_invalidAt m = None) (memories w @ [?doc]) = Some ?doc"
    unfolding h2 by (rule find_append_new[OF none]) simp
  then have second: "addFromTool env uid c2 ty' kws' ?w1 = (Some (NotSaved ''duplicate''), ?w1)"
    by (intro addFromTool_duplicate) simp
  have third: "fst (addFromTool env uid c3 ty' kws' ?w1) = Some (Saved (newId env (Suc (idCounter w))))
           \<and> map m_content (memories (snd (addFromTool env uid c3 ty' kws' ?w1))) =
               map m_content (memories w) @ [c1, c3]"
    if d: "sha256 env (toLowerCaseJS env (trimJS env c3)) \<noteq> ?h"
      and f3: "\<forall>m \<in> set (memories w). m_userId m = uid \<and> m_invalidAt m = None \<longrightarrow>
                 m_contentHash m \<noteq> Some (sha256 env (toLowerCaseJS env (trimJS env c3)))"
      and e3: "embedModel env c3 = Some e3" for c3 e3
  proof -
    from d f3 have "\<forall>m \<in> set (memories ?w1). m_userId m = uid \<and> m_invalidAt m = None \<longrightarrow>
             m_contentHash m \<noteq> Some (sha256 env (toLowerCaseJS env (trimJS env c3)))"
      by auto
    from addFromTool_fresh[OF this e3, of ty' kws'] show ?thesis by simp
  qed
  have fourth: "\<exists>w2. invalidateInternal (newId env (idCounter w)) ?w1 = Some w2
              \<and> fst (addFromTool env uid c2 ty' kws' w2) =
                  Some (Saved (newId env (Suc (idCounter w))))
              \<and> map m_invalidAt (drop (length (memories w)) (memories (snd (addFromTool env uid c2 ty' kws' w2)))) =
                  [Some (clock w), None]"
    if idf: "newId env (idCounter w) \<notin> m_id ` set (memories w)"
      and e2: "embedModel env c2 = Some e2" for e2
  proof -
    let ?doc' = "?doc \<lparr> m_invalidAt := Some (clock w) \<rparr>"
    let ?w2 = "?w1 \<lparr> memories := memories w @ [?doc'],
                  storeLog := storeLog ?w1 @ [PatchInvalidAt (newId env (idCounter w)) (clock w)] \<rparr>"
    from idf have nf: "\<forall>x \<in> set (memories w). \<not> m_id x = newId env (idCounter w)"
      by (force simp: image_iff)
    have g: "getById (newId env (idCounter w)) ?w1 = Some ?doc"
      unfolding getById_def by (simp add: find_append_fresh[OF nf])
    have pa: "patchInvalidAt (newId env (idCounter w)) (clock w) (memories w @ [?doc]) =
        memories w @ [?doc']"
      by (rule patchInvalidAt_append_fresh[OF idf]) simp
    have inv: "invalidateInternal (newId env (idCounter w)) ?w1 = Some ?w2"
      using g pa by (simp add: invalidateInternal_def)
    have f2: "\<forall>m \<in> set (memories ?w2). m_userId m = uid \<and> m_invalidAt m = None \<longrightarrow>
             m_contentHash m \<noteq> Some (sha256 env (toLowerCaseJS env (trimJS env c2)))"
      using fresh by (auto simp: norm)
    from addFromTool_fresh[OF f2 e2, of ty' kws']
    have a: "fst (addFromTool env uid c2 ty' kws' ?w2) = Some (Saved (newId env (Suc (idCounter w))))"
      and b: "map m_invalidAt (drop (length (memories w)) (memories (snd (addFromTool env uid c2 ty' kws' ?w2)))) =
                  [Some (clock w), None]"
      by simp_all
    show ?thesis
      by (rule exI[of _ ?w2]) (intro conjI inv a b)
  qed
  show ?thesis
    unfolding first fst_conv snd_conv using second third fourth by simp
qed

theorem addFromTool_second_call_is_duplicate_witness:
  "toLowerCaseJS quietEnv (trimJS quietEnv ''  LIKES Tea  '') = ''likes tea''
   \<and> toLowerCaseJS quietEnv (trimJS quietEnv ''Likes tea'') = ''likes tea''
   \<and> fst (addFromTool quietEnv ''u1'' ''Likes tea'' Semantic None emptyWorld) = Some (Saved ''d'')
   \<and> addFromTool quietEnv ''u1'' ''  LIKES Tea  '' Semantic None
        (snd (addFromTool quietEnv ''u1'' ''Likes tea'' Semantic None emptyWorld)) =
        (Some (NotSaved ''duplicate''), snd (addFromTool quietEnv ''u1'' ''Likes tea'' Semantic None emptyWorld))
   \<and> map m_content (memories (snd (addFromTool quietEnv ''u1'' ''Likes tea'' Semantic None emptyWorld))) =
        [''Likes tea'']
   \<and> fst (addFromTool quietEnv ''u1'' ''Hates coffee'' Semantic None
        (snd (addFromTool quietEnv ''u1'' ''Likes tea'' Semantic None emptyWorld))) = Some (Saved ''dx'')
   \<and> map m_content (memories (snd (addFromTool quietEnv ''u1'' ''Hates coffee'' Semantic None
        (snd (addFromTool quietEnv ''u1'' ''Likes tea'' Semantic None emptyWorld))))) =
        [''Likes tea'', ''Hates coffee'']
   \<and> fst (addFromTool quietEnv ''u1'' ''  LIKES Tea  '' Semantic None
        (the (invalidateInternal ''d''
                (snd (addFromTool quietEnv ''u1'' ''Likes tea'' Semantic None emptyWorld))))) =
        Some (Saved ''dx'')"
proof -
  have n1: "toLowerCaseJS quietEnv (trimJS quietEnv ''Likes tea'') = ''likes tea''"
    by (simp add: quietEnv_def asciiToLowerCase_def asciiTrim_def isSpace_def lowerChar_def
          char_of_def bit_Suc_0_iff)
  have n2: "toLowerCaseJS quietEnv (trimJS quietEnv ''  LIKES Tea  '') = ''likes tea''"
    by (simp add: quietEnv_def asciiToLowerCase_def asciiTrim_def isSpace_def lowerChar_def
          char_of_def bit_Suc_0_iff)
  have n3: "toLowerCaseJS quietEnv (trimJS quietEnv ''Hates coffee'') = ''hates coffee''"
    by (simp add: quietEnv_def asciiToLowerCase_def asciiTrim_def isSpace_def lowerChar_def
          char_of_def bit_Suc_0_iff)
  have f: "\<forall>m \<in> set (memories emptyWorld). m_userId m = ''u1'' \<and> m_invalidAt m = None \<longrightarrow>
             m_contentHash m \<noteq> Some (sha256 quietEnv (toLowerCaseJS quietEnv (trimJS quietEnv ''Likes tea'')))"
    by (simp add: emptyWorld_def)
  have e: "embedModel quietEnv ''Likes tea'' = Some [1]" by (simp add: quietEnv_def)
  have n: "toLowerCaseJS quietEnv (trimJS quietEnv ''  LIKES Tea  '') =
           toLowerCaseJS quietEnv (trimJS quietEnv ''Likes tea'')"
    by (simp only: n1 n2)
  note t = addFromTool_second_call_is_duplicate[OF f e n, of Semantic None Semantic None]
  have d: "sha256 quietEnv (toLowerCaseJS quietEnv (trimJS quietEnv ''Hates coffee'')) \<noteq>
             sha256 quietEnv (toLowerCaseJS quietEnv (trimJS quietEnv ''Likes tea''))"
    unfolding n1 n3 by (simp add: quietEnv_def)
  have f3: "\<forall>m \<in> set (memories emptyWorld). m_userId m = ''u1'' \<and> m_invalidAt m = None \<longrightarrow>
             m_contentHash m \<noteq> Some (sha256 quietEnv (toLowerCaseJS quietEnv (trimJS quietEnv ''Hates coffee'')))"
    by (simp add: emptyWorld_def)
  have e3: "embedModel quietEnv ''Hates coffee'' = Some [1]" by (simp add: quietEnv_def)
  from t have 1: "fst (addFromTool quietEnv ''u1'' ''Likes tea'' Semantic None emptyWorld) =
      Some (Saved (newId quietEnv (idCounter emptyWorld)))"
    by (rule conjunct1)
  from t have 2: "addFromTool quietEnv ''u1'' ''  LIKES Tea  '' Semantic None
        (snd (addFromTool quietEnv ''u1'' ''Likes tea'' Semantic None emptyWorld)) =
        (Some (NotSaved ''duplicate''), snd (addFromTool quietEnv ''u1'' ''Likes tea'' Semantic None emptyWorld))"
    by (rule conjunct2[THEN conjunct2, THEN conjunct1])
  from t have m: "memories (snd (addFromTool quietEnv ''u1'' ''Likes tea'' Semantic None emptyWorld)) =
         memories emptyWorld @
           [\<lparr> m_id = newId quietEnv (idCounter emptyWorld), m_userId = ''u1'', m_content = ''Likes tea'',
              m_embedding = [1], m_type = Semantic, m_keywords = None,
              m_contentHash = Some (sha256 quietEnv (toLowerCaseJS quietEnv (trimJS quietEnv ''Likes tea''))),
              m_validAt = Some (clock emptyWorld), m_invalidAt = None,
              m_sourceConversationId = None, m_createdAt = clock emptyWorld \<rparr>]"
    by (rule conjunct2[THEN conjunct1])
  note t3 = t[THEN conjunct2, THEN conjunct2, THEN conjunct2, THEN conjunct1, rule_format,
      of "''Hates coffee''" "[1]",
      OF conjI[OF d conjI[OF f3 e3]]]
  have i0: "newId quietEnv (idCounter emptyWorld) = ''d''" "newId quietEnv (Suc (idCounter emptyWorld)) = ''dx''"
       "memories emptyWorld = []"
    by (simp_all add: quietEnv_def emptyWorld_def)
  from 1 have one: "fst (addFromTool quietEnv ''u1'' ''Likes tea'' Semantic None emptyWorld) = Some (Saved ''d'')"
    unfolding i0 .
  have 3: "map m_content (memories (snd (addFromTool quietEnv ''u1'' ''Likes tea'' Semantic None emptyWorld))) =
        [''Likes tea'']"
    unfolding m by (simp add: i0)
  from t3 have 4: "fst (addFromTool quietEnv ''u1'' ''Hates coffee'' Semantic None
        (snd (addFromTool quietEnv ''u1'' ''Likes tea'' Semantic None emptyWorld))) = Some (Saved ''dx'')"
    unfolding i0 by (rule conjunct1)
  from t3 have 5: "map m_content (memories (snd (addFromTool quietEnv ''u1'' ''Hates coffee'' Semantic None
        (snd (addFromTool quietEnv ''u1'' ''Likes tea'' Semantic None emptyWorld))))) =
        [''Likes tea'', ''Hates coffee'']"
    unfolding i0 by simp
  have idf: "newId quietEnv (idCounter emptyWorld) \<notin> m_id ` set (memories emptyWorld)"
    by (simp add: emptyWorld_def)
  have e2: "embedModel quietEnv ''  LIKES Tea  '' = Some [1]" by (simp add: quietEnv_def)
  note t4 = t[THEN conjunct2, THEN conjunct2, THEN conjunct2, THEN conjunct2, rule_format,
      of "[1]", OF conjI[OF idf e2]]
  from t4 obtain w2 where
    "invalidateInternal ''d'' (snd (addFromTool quietEnv ''u1'' ''Likes tea'' Semantic None emptyWorld)) = Some w2"
    and "fst (addFromTool quietEnv ''u1'' ''  LIKES Tea  '' Semantic None w2) = Some (Saved ''dx'')"
    unfolding i0 by blast
  then have 6: "fst (addFromTool quietEnv ''u1'' ''  LIKES Tea  '' Semantic None
        (the (invalidateInternal ''d''
                (snd (addFromTool quietEnv ''u1'' ''Likes tea'' Semantic None emptyWorld))))) =
        Some (Saved ''dx'')"
    by simp
  from n1 n2 one 2 3 4 5 6 show ?thesis by blast
qed

end
